theory Spec2Isabelle
  imports
    Complex_Main
    "HOL-Library.Multiset"
    "HOL-Library.Char_ord"
    "HOL-Library.List_Lexorder"
begin

section \<open>Values of the JSON payload and Python's exceptions\<close>

text \<open>
  The payload of the data API is \<open>{"dataset_data": {"column_names": [...], "data": [[...], ...]}}\<close>.
  A cell of a row is \<open>None\<close>, a number or a string (the date). Numbers are modelled
  as exact rationals: the rounding of Python's floats is not part of the model.
  An exception raised by a cell of the notebook is the \<open>Inl\<close> of a sum.
\<close>

datatype json = JNull | JNum rat | JStr string

datatype py_error = IndexError | KeyError | TypeError | ValueError | StatisticsError

type_synonym row = "json list"

definition and_then :: "py_error + 'a \<Rightarrow> ('a \<Rightarrow> py_error + 'b) \<Rightarrow> py_error + 'b" where
  "and_then r f = (case r of Inl e \<Rightarrow> Inl e | Inr v \<Rightarrow> f v)"

text \<open>\<open>xs[i]\<close>: a negative index counts from the end, anything out of range raises.\<close>

definition getitem :: "'a list \<Rightarrow> int \<Rightarrow> py_error + 'a" where
  "getitem xs i =
     (if 0 \<le> i \<and> i < int (length xs) then Inr (xs ! nat i)
      else if i < 0 \<and> - int (length xs) \<le> i then Inr (xs ! nat (int (length xs) + i))
      else Inl IndexError)"

text \<open>
  \<open>[e for x in xs if c]\<close>: the body gives \<open>None\<close> where the condition fails and
  \<open>Some\<close> of the element otherwise; the first exception, in iteration order, ends it.
\<close>

fun list_comp :: "('a \<Rightarrow> py_error + 'b option) \<Rightarrow> 'a list \<Rightarrow> py_error + 'b list" where
  "list_comp f [] = Inr []"
| "list_comp f (x # xs) =
     and_then (f x) (\<lambda>r.
     and_then (list_comp f xs) (\<lambda>ys.
       Inr (case r of None \<Rightarrow> ys | Some y \<Rightarrow> y # ys)))"

text \<open>\<open>a - b\<close>: defined on two numbers only.\<close>

fun py_sub :: "json \<Rightarrow> json \<Rightarrow> py_error + rat" where
  "py_sub (JNum a) (JNum b) = Inr (a - b)"
| "py_sub _ _ = Inl TypeError"

text \<open>\<open>a > b\<close> and \<open>a < b\<close>: numbers with numbers, strings with strings.\<close>

fun py_gt :: "json \<Rightarrow> json \<Rightarrow> py_error + bool" where
  "py_gt (JNum a) (JNum b) = Inr (b < a)"
| "py_gt (JStr a) (JStr b) = Inr (b < a)"
| "py_gt _ _ = Inl TypeError"

fun py_lt :: "json \<Rightarrow> json \<Rightarrow> py_error + bool" where
  "py_lt (JNum a) (JNum b) = Inr (a < b)"
| "py_lt (JStr a) (JStr b) = Inr (a < b)"
| "py_lt _ _ = Inl TypeError"

text \<open>
  The built-ins \<open>max\<close> and \<open>min\<close> of a list: \<open>ValueError\<close> on the empty list, else
  a scan that replaces the running item when the next one compares greater (smaller).
\<close>

fun max_scan :: "json \<Rightarrow> json list \<Rightarrow> py_error + json" where
  "max_scan m [] = Inr m"
| "max_scan m (x # xs) = and_then (py_gt x m) (\<lambda>b. max_scan (if b then x else m) xs)"

fun min_scan :: "json \<Rightarrow> json list \<Rightarrow> py_error + json" where
  "min_scan m [] = Inr m"
| "min_scan m (x # xs) = and_then (py_lt x m) (\<lambda>b. min_scan (if b then x else m) xs)"

definition py_max :: "json list \<Rightarrow> py_error + json" where
  "py_max xs = (case xs of [] \<Rightarrow> Inl ValueError | x # rest \<Rightarrow> max_scan x rest)"

definition py_min :: "json list \<Rightarrow> py_error + json" where
  "py_min xs = (case xs of [] \<Rightarrow> Inl ValueError | x # rest \<Rightarrow> min_scan x rest)"

text \<open>The same built-ins on a list of numbers, where no comparison can fail.\<close>

definition max_num :: "rat list \<Rightarrow> py_error + rat" where
  "max_num xs = (case xs of [] \<Rightarrow> Inl ValueError | x # rest \<Rightarrow> Inr (fold max rest x))"

definition min_num :: "rat list \<Rightarrow> py_error + rat" where
  "min_num xs = (case xs of [] \<Rightarrow> Inl ValueError | x # rest \<Rightarrow> Inr (fold min rest x))"

subsection \<open>The \<open>statistics\<close> module\<close>

fun to_num :: "json \<Rightarrow> py_error + rat" where
  "to_num (JNum a) = Inr a"
| "to_num _ = Inl TypeError"

fun is_JNum :: "json \<Rightarrow> bool" where
  "is_JNum (JNum a) = True"
| "is_JNum _ = False"

fun is_JStr :: "json \<Rightarrow> bool" where
  "is_JStr (JStr s) = True"
| "is_JStr _ = False"

fun num_of :: "json \<Rightarrow> rat" where
  "num_of (JNum a) = a"
| "num_of _ = 0"

fun str_of :: "json \<Rightarrow> string" where
  "str_of (JStr s) = s"
| "str_of _ = []"

text \<open>
  \<open>statistics.mean(data)\<close>: \<open>StatisticsError\<close> on no data point, \<open>TypeError\<close> on a
  data point that is not a number, else the exact sum over the count.
\<close>

definition statistics_mean :: "json list \<Rightarrow> py_error + rat" where
  "statistics_mean data =
     (if length data < 1 then Inl StatisticsError
      else and_then (list_comp (\<lambda>x. and_then (to_num x) (\<lambda>a. Inr (Some a))) data) (\<lambda>ns.
             Inr (sum_list ns / of_nat (length data))))"

text \<open>
  \<open>sorted(data)\<close>: a list of at most one item is returned without a comparison; a
  longer one is sorted when its items are all numbers or all strings, and raises
  \<open>TypeError\<close> when two of its items cannot be compared.
\<close>

definition py_sorted :: "json list \<Rightarrow> py_error + json list" where
  "py_sorted data =
     (if length data \<le> 1 then Inr data
      else if list_all is_JNum data then Inr (map JNum (sort (map num_of data)))
      else if list_all is_JStr data then Inr (map JStr (sort (map str_of data)))
      else Inl TypeError)"

text \<open>\<open>(a + b) / 2\<close> of \<open>statistics.median\<close>: two strings concatenate, and the
  division of the result raises.\<close>

fun py_mid :: "json \<Rightarrow> json \<Rightarrow> py_error + json" where
  "py_mid (JNum a) (JNum b) = Inr (JNum ((a + b) / 2))"
| "py_mid _ _ = Inl TypeError"

text \<open>
  \<open>statistics.median(data)\<close>: sorts, raises \<open>StatisticsError\<close> on no data point,
  returns the middle item of an odd count and the mean of the two middle items of
  an even count.
\<close>

definition statistics_median :: "json list \<Rightarrow> py_error + json" where
  "statistics_median data0 =
     and_then (py_sorted data0) (\<lambda>data.
       let n = length data in
       if n = 0 then Inl StatisticsError
       else if n mod 2 = 1 then Inr (data ! (n div 2))
       else let i = n div 2 in py_mid (data ! (i - 1)) (data ! i))"

section \<open>The notebook \<open>api_data_wrangling_mini_project_public.ipynb\<close>\<close>

text \<open>
  Every cell reads \<open>data_2017\<close>, the payload's list of rows, at fixed positions:
  1 for the open, 2 and 3 for high and low, 4 for the close, 6 for the traded volume.
\<close>

subsection \<open>Task 3: highest and lowest opening price\<close>

definition opens :: "row list \<Rightarrow> py_error + json list" where
  "opens data_2017 =
     list_comp (\<lambda>i. and_then (getitem i 1) (\<lambda>v.
                      if v \<noteq> JNull then and_then (getitem i 1) (\<lambda>w. Inr (Some w))
                      else Inr None)) data_2017"

definition highest_open :: "row list \<Rightarrow> py_error + json" where
  "highest_open data_2017 = and_then (opens data_2017) py_max"

definition lowest_open :: "row list \<Rightarrow> py_error + json" where
  "lowest_open data_2017 = and_then (opens data_2017) py_min"

text \<open>The cell as a whole: the pair (lowest, highest), the maximum computed first.\<close>

definition openExtrema :: "row list \<Rightarrow> py_error + (json \<times> json)" where
  "openExtrema data_2017 =
     and_then (opens data_2017) (\<lambda>os.
     and_then (py_max os) (\<lambda>hi.
     and_then (py_min os) (\<lambda>lo. Inr (lo, hi))))"

subsection \<open>Task 4: largest change in any one day\<close>

definition largest_change :: "row list \<Rightarrow> py_error + rat" where
  "largest_change data_2017 =
     and_then (list_comp (\<lambda>i. and_then (getitem i 2) (\<lambda>h.
                               and_then (getitem i 3) (\<lambda>l.
                               and_then (py_sub h l) (\<lambda>d. Inr (Some d))))) data_2017)
       max_num"

subsection \<open>Task 5: largest change of the close between two days\<close>

definition closes :: "row list \<Rightarrow> py_error + json list" where
  "closes data_2017 = list_comp (\<lambda>i. and_then (getitem i 4) (\<lambda>v. Inr (Some v))) data_2017"

definition overnight_changes :: "json list \<Rightarrow> py_error + rat list" where
  "overnight_changes cls =
     list_comp (\<lambda>(key, val).
        if val \<noteq> JNull then
          and_then (getitem cls (int key - 1)) (\<lambda>prev.
            if prev \<noteq> JNull \<and> 0 < key
            then and_then (py_sub val prev) (\<lambda>d. Inr (Some d))
            else Inr None)
        else Inr None) (enumerate 0 cls)"

text \<open>What the cell prints: the direction and the number handed to the format.\<close>

datatype overnight = Increase rat | Decrease rat

definition largest_overnight :: "rat list \<Rightarrow> py_error + overnight" where
  "largest_overnight changes =
     and_then (max_num changes) (\<lambda>pos_max_overnight.
     and_then (min_num changes) (\<lambda>neg_max_overnight.
       Inr (if \<bar>neg_max_overnight\<bar> > pos_max_overnight
            then Decrease \<bar>neg_max_overnight\<bar>
            else Increase pos_max_overnight)))"

definition maxAdjacentCloseChange :: "row list \<Rightarrow> py_error + overnight" where
  "maxAdjacentCloseChange data_2017 =
     and_then (closes data_2017) (\<lambda>cls.
     and_then (overnight_changes cls) largest_overnight)"

subsection \<open>Tasks 6 and 7: mean and median of the traded volume\<close>

definition traded_volume :: "row list \<Rightarrow> py_error + json list" where
  "traded_volume data_2017 =
     list_comp (\<lambda>i. and_then (getitem i 6) (\<lambda>v.
                      if v \<noteq> JNull then and_then (getitem i 6) (\<lambda>w. Inr (Some w))
                      else Inr None)) data_2017"

definition avg_volume :: "row list \<Rightarrow> py_error + rat" where
  "avg_volume data_2017 = and_then (traded_volume data_2017) statistics_mean"

definition median_volume :: "row list \<Rightarrow> py_error + json" where
  "median_volume data_2017 = and_then (traded_volume data_2017) statistics_median"

section \<open>The notebook \<open>part_000\<close>\<close>

text \<open>
  The second notebook of the repository answers the same questions from a dictionary
  of columns, \<open>afx_dict\<close>, built from the payload's \<open>column_names\<close> and \<open>data\<close>. Its
  variables carry the names of the first notebook's; they are suffixed \<open>_p0\<close> here.
\<close>

subsection \<open>Task 3: the dictionary of columns\<close>

text \<open>\<open>xs.index(x)\<close>: the position of the first item equal to \<open>x\<close>.\<close>

fun index_of :: "'a list \<Rightarrow> 'a \<Rightarrow> nat option" where
  "index_of [] x = None"
| "index_of (y # ys) x = (if y = x then Some 0 else map_option Suc (index_of ys x))"

definition list_index :: "'a list \<Rightarrow> 'a \<Rightarrow> py_error + nat" where
  "list_index xs x = (case index_of xs x of None \<Rightarrow> Inl ValueError | Some i \<Rightarrow> Inr i)"

type_synonym columns = "string \<rightharpoonup> json list"

text \<open>The inner loop appends \<open>row[iname]\<close> of every row to \<open>values\<close>.\<close>

fun column_loop :: "nat \<Rightarrow> row list \<Rightarrow> json list \<Rightarrow> py_error + json list" where
  "column_loop iname [] values = Inr values"
| "column_loop iname (row # rest) values =
     and_then (getitem row (int iname)) (\<lambda>v. column_loop iname rest (values @ [v]))"

text \<open>The outer loop stores the list under each name of \<open>names\<close>.\<close>

fun names_loop :: "string list \<Rightarrow> row list \<Rightarrow> string list \<Rightarrow> columns \<Rightarrow> py_error + columns" where
  "names_loop names data [] d = Inr d"
| "names_loop names data (name # rest) d =
     and_then (list_index names name) (\<lambda>iname.
     and_then (column_loop iname data []) (\<lambda>values.
       names_loop names data rest (d(name \<mapsto> values))))"

definition afx_dict :: "string list \<Rightarrow> row list \<Rightarrow> py_error + columns" where
  "afx_dict names data = names_loop names data names Map.empty"

definition dict_get :: "columns \<Rightarrow> string \<Rightarrow> py_error + json list" where
  "dict_get d k = (case d k of None \<Rightarrow> Inl KeyError | Some v \<Rightarrow> Inr v)"

definition highest_open_p0 :: "columns \<Rightarrow> py_error + json" where
  "highest_open_p0 d =
     and_then (dict_get d ''Open'') (\<lambda>col. py_max (filter (\<lambda>i. i \<noteq> JNull) col))"

definition lowest_open_p0 :: "columns \<Rightarrow> py_error + json" where
  "lowest_open_p0 d =
     and_then (dict_get d ''Open'') (\<lambda>col. py_min (filter (\<lambda>i. i \<noteq> JNull) col))"

subsection \<open>Task 4: largest change in any one day\<close>

definition daily_changes_p0 :: "columns \<Rightarrow> py_error + rat list" where
  "daily_changes_p0 d =
     and_then (dict_get d ''High'') (\<lambda>highs.
     and_then (dict_get d ''Low'') (\<lambda>lows.
       list_comp (\<lambda>(a, b). and_then (py_sub a b) (\<lambda>x. Inr (Some x))) (zip highs lows)))"

definition largest_change_p0 :: "columns \<Rightarrow> py_error + rat" where
  "largest_change_p0 d = and_then (daily_changes_p0 d) max_num"

subsection \<open>Task 5: largest change of the close between two days\<close>

text \<open>
  For every close but the first, the loop subtracts the item that precedes the
  first occurrence of the close's value in the column.
\<close>

definition overnight_changes_p0 :: "json list \<Rightarrow> py_error + rat list" where
  "overnight_changes_p0 cls =
     list_comp (\<lambda>item.
        and_then (list_index cls item) (\<lambda>j.
        and_then (getitem cls (int j - 1)) (\<lambda>prev.
        and_then (py_sub item prev) (\<lambda>x. Inr (Some x))))) (drop 1 cls)"

definition largest_overnight_p0 :: "rat list \<Rightarrow> py_error + overnight" where
  "largest_overnight_p0 changes =
     and_then (max_num changes) (\<lambda>pos_max_overnight.
     and_then (min_num changes) (\<lambda>neg_max_overnight.
       Inr (if \<bar>neg_max_overnight\<bar> > pos_max_overnight
            then Decrease neg_max_overnight
            else Increase \<bar>pos_max_overnight\<bar>)))"

definition maxAdjacentCloseChange_p0 :: "columns \<Rightarrow> py_error + overnight" where
  "maxAdjacentCloseChange_p0 d =
     and_then (dict_get d ''Close'') (\<lambda>cls.
     and_then (overnight_changes_p0 cls) largest_overnight_p0)"

subsection \<open>Tasks 6 and 7: mean and median of the traded volume\<close>

definition avg_volume_p0 :: "columns \<Rightarrow> py_error + rat" where
  "avg_volume_p0 d = and_then (dict_get d ''Traded Volume'') statistics_mean"

text \<open>
  A Python number used as a list index: \<open>/\<close> gives a float, \<open>//\<close> an integer, and a
  list refuses a float as index.
\<close>

datatype py_number = PyInt int | PyFloat rat

fun getitem_num :: "'a list \<Rightarrow> py_number \<Rightarrow> py_error + 'a" where
  "getitem_num xs (PyInt i) = getitem xs i"
| "getitem_num xs (PyFloat x) = Inl TypeError"

definition median_volume_p0 :: "columns \<Rightarrow> py_error + json" where
  "median_volume_p0 d =
     and_then (dict_get d ''Traded Volume'') (\<lambda>col.
       let median_ref = length col in
       and_then (py_sorted col) (\<lambda>sorted_trade_vol.
         if median_ref mod 2 = 0 then
           let median_index_1 = of_nat median_ref / 2 - 1;
               median_index_2 = median_index_1 + 1
           in and_then (getitem_num sorted_trade_vol (PyFloat median_index_1)) (\<lambda>a.
              and_then (getitem_num sorted_trade_vol (PyFloat median_index_2)) (\<lambda>b.
                py_mid a b))
         else
           let median_index = int (median_ref div 2)
           in getitem_num sorted_trade_vol (PyInt median_index)))"

section \<open>Daily records\<close>

text \<open>
  One trading day as the API delivers it, under the column names the notebooks
  print; every field but the date may be absent.
\<close>

record DailyRecord =
  Date :: string
  Open :: "rat option"
  High :: "rat option"
  Low :: "rat option"
  Close :: "rat option"
  Change :: "rat option"
  Traded_Volume :: "rat option"
  Turnover :: "rat option"
  Last_Price_of_the_Day :: "rat option"
  Daily_Traded_Units :: "rat option"
  Daily_Turnover :: "rat option"

definition column_names :: "string list" where
  "column_names = [''Date'', ''Open'', ''High'', ''Low'', ''Close'', ''Change'',
     ''Traded Volume'', ''Turnover'', ''Last Price of the Day'', ''Daily Traded Units'',
     ''Daily Turnover'']"

fun cell :: "rat option \<Rightarrow> json" where
  "cell None = JNull"
| "cell (Some x) = JNum x"

definition row_of :: "DailyRecord \<Rightarrow> row" where
  "row_of r = [JStr (Date r), cell (Open r), cell (High r), cell (Low r), cell (Close r),
     cell (Change r), cell (Traded_Volume r), cell (Turnover r),
     cell (Last_Price_of_the_Day r), cell (Daily_Traded_Units r), cell (Daily_Turnover r)]"

section \<open>The specification's vocabulary\<close>

text \<open>
  The non-null values of one field of a series, in the order of the series.
\<close>

definition non_null :: "(DailyRecord \<Rightarrow> rat option) \<Rightarrow> DailyRecord list \<Rightarrow> rat list" where
  "non_null field series = List.map_filter field series"

text \<open>
  Adjacency in the raw sequence of closes: position \<open>i\<close> contributes
  \<open>close[i] - close[i-1]\<close> exactly when both closes are present.
\<close>

definition adjacent_pairs :: "rat option list \<Rightarrow> nat list" where
  "adjacent_pairs cs = filter (\<lambda>i. cs ! i \<noteq> None \<and> cs ! (i - 1) \<noteq> None) [1..<length cs]"

definition adjacent_deltas :: "rat option list \<Rightarrow> rat list" where
  "adjacent_deltas cs = map (\<lambda>i. the (cs ! i) - the (cs ! (i - 1))) (adjacent_pairs cs)"

text \<open>
  The standard median: sort ascending; the middle element of an odd count, the
  average of the two middle elements of an even count.
\<close>

definition standard_median :: "rat list \<Rightarrow> rat" where
  "standard_median vs =
     (let s = sort vs; n = length s
      in if odd n then s ! (n div 2) else (s ! (n div 2 - 1) + s ! (n div 2)) / 2)"

definition arithmetic_mean :: "rat list \<Rightarrow> rat" where
  "arithmetic_mean vs = sum_list vs / of_nat (length vs)"

text \<open>
  A reordering of columns: position \<open>j\<close> of the result holds what position \<open>p ! j\<close>
  held. It is applied alike to the column names and to every row.
\<close>

definition permute_columns :: "nat list \<Rightarrow> 'a list \<Rightarrow> 'a list" where
  "permute_columns p xs = map (\<lambda>i. xs ! i) p"

text \<open>What the dictionary of columns holds under a name when no row is too short.\<close>

definition column_of :: "string list \<Rightarrow> row list \<Rightarrow> string \<Rightarrow> json list option" where
  "column_of names data name =
     map_option (\<lambda>i. map (\<lambda>row. row ! i) data) (index_of names name)"

text \<open>
  A reordering that leaves in place the five positions the first notebook reads.
\<close>

definition keeps_positions :: "nat list \<Rightarrow> bool" where
  "keeps_positions p = (\<forall>k\<in>{1, 2, 3, 4, 6}. k < length p \<longrightarrow> p ! k = k)"

text \<open>Every row is long enough for the position of every name of \<open>ns\<close>.\<close>

definition rows_reach :: "string list \<Rightarrow> string list \<Rightarrow> row list \<Rightarrow> bool" where
  "rows_reach names ns data = (\<forall>n\<in>set ns. \<forall>row\<in>set data. the (index_of names n) < length row)"

subsection \<open>Sample series\<close>

definition blank_day :: DailyRecord where
  "blank_day = \<lparr>Date = ''2017-01-02'', Open = None, High = None, Low = None, Close = None,
     Change = None, Traded_Volume = None, Turnover = None, Last_Price_of_the_Day = None,
     Daily_Traded_Units = None, Daily_Turnover = None\<rparr>"

definition close_days :: "rat option list \<Rightarrow> DailyRecord list" where
  "close_days cs = map (\<lambda>c. blank_day\<lparr>Close := c\<rparr>) cs"

definition volume_days :: "rat option list \<Rightarrow> DailyRecord list" where
  "volume_days vs = map (\<lambda>v. blank_day\<lparr>Traded_Volume := v\<rparr>) vs"

definition range_days :: "(rat option \<times> rat option) list \<Rightarrow> DailyRecord list" where
  "range_days hls = map (\<lambda>(h, l). blank_day\<lparr>High := h, Low := l\<rparr>) hls"

definition day_a :: DailyRecord where
  "day_a = blank_day\<lparr>Open := Some 34, High := Some 36, Low := Some 33, Traded_Volume := Some 100\<rparr>"

definition day_b :: DailyRecord where
  "day_b = blank_day\<lparr>Open := Some 53, High := Some 54, Low := Some 50, Traded_Volume := Some 300\<rparr>"

text \<open>Two reorderings of the eleven columns: open with high, and turnover with its neighbour.\<close>

definition swap_open_high :: "nat list" where
  "swap_open_high = [0, 2, 1, 3, 4, 5, 6, 7, 8, 9, 10]"

definition swap_turnover :: "nat list" where
  "swap_turnover = [0, 1, 2, 3, 4, 5, 6, 8, 7, 9, 10]"

section \<open>Auxiliary facts\<close>

lemma and_then_Inl [simp]: "and_then (Inl e) f = Inl e"
  by (simp add: and_then_def)

lemma and_then_Inr [simp]: "and_then (Inr v) f = f v"
  by (simp add: and_then_def)

lemma list_comp_total:
  "(\<And>x. x \<in> set xs \<Longrightarrow> f x = Inr (g x)) \<Longrightarrow> list_comp f xs = Inr (List.map_filter g xs)"
  by (induction xs) (auto simp: List.map_filter_simps split: option.splits)

lemma list_comp_map: "list_comp f (map h xs) = list_comp (\<lambda>x. f (h x)) xs"
  by (induction xs) simp_all

lemma list_comp_raises:
  assumes "\<And>x. x \<in> set xs \<Longrightarrow> f x = Inl e \<or> (\<exists>y. f x = Inr y)"
      and "\<exists>x\<in>set xs. f x = Inl e"
  shows "list_comp f xs = Inl e"
  using assms
proof (induction xs)
  case Nil
  then show ?case by simp
next
  case (Cons a xs)
  show ?case
  proof (cases "f a")
    case (Inl e')
    with Cons.prems(1)[of a] show ?thesis by simp
  next
    case (Inr y)
    with Cons.prems(2) have "\<exists>x\<in>set xs. f x = Inl e" by auto
    with Cons.IH Cons.prems(1) have "list_comp f xs = Inl e" by simp
    with Inr show ?thesis by simp
  qed
qed

lemma fold_max_Max: "fold max xs (x::rat) = Max (set (x # xs))"
  by (rule Max.set_eq_fold[symmetric])

lemma fold_min_Min: "fold min xs (x::rat) = Min (set (x # xs))"
  by (rule Min.set_eq_fold[symmetric])

lemma max_num_eq: "max_num xs = (if xs = [] then Inl ValueError else Inr (Max (set xs)))"
  by (cases xs) (simp_all add: max_num_def fold_max_Max del: set_simps)

lemma min_num_eq: "min_num xs = (if xs = [] then Inl ValueError else Inr (Min (set xs)))"
  by (cases xs) (simp_all add: min_num_def fold_min_Min  del: set_simps)

lemma max_scan_nums: "max_scan (JNum m) (map JNum xs) = Inr (JNum (fold max xs m))"
  by (induction xs arbitrary: m) (auto simp: max_def)

lemma min_scan_nums: "min_scan (JNum m) (map JNum xs) = Inr (JNum (fold min xs m))"
  by (induction xs arbitrary: m) (auto simp: min_def)

lemma py_max_nums:
  "py_max (map JNum xs) = (if xs = [] then Inl ValueError else Inr (JNum (Max (set xs))))"
  by (cases xs) (simp_all add: py_max_def max_scan_nums fold_max_Max del: set_simps)

lemma py_min_nums:
  "py_min (map JNum xs) = (if xs = [] then Inl ValueError else Inr (JNum (Min (set xs))))"
  by (cases xs) (simp_all add: py_min_def min_scan_nums fold_min_Min del: set_simps)

lemma getitem_row_of [simp]:
  "getitem (row_of r) 1 = Inr (cell (Open r))"
  "getitem (row_of r) 2 = Inr (cell (High r))"
  "getitem (row_of r) 3 = Inr (cell (Low r))"
  "getitem (row_of r) 4 = Inr (cell (Close r))"
  "getitem (row_of r) 6 = Inr (cell (Traded_Volume r))"
  by (simp_all add: getitem_def row_of_def)

lemma cell_eq_JNull [simp]: "(cell v = JNull) = (v = None)"
  by (cases v) simp_all

lemma map_filter_cell: "List.map_filter (\<lambda>r. if f r \<noteq> None then Some (cell (f r)) else None) rs
   = map JNum (List.map_filter f rs)"
  by (induction rs) (auto simp: List.map_filter_simps split: option.splits)

lemma opens_series: "opens (map row_of rs) = Inr (map JNum (List.map_filter Open rs))"
proof -
  have "opens (map row_of rs) =
      Inr (List.map_filter (\<lambda>r. if Open r \<noteq> None then Some (cell (Open r)) else None) rs)"
    unfolding opens_def list_comp_map by (rule list_comp_total) simp
  then show ?thesis unfolding map_filter_cell .
qed

lemma traded_volume_series:
  "traded_volume (map row_of rs) = Inr (map JNum (List.map_filter Traded_Volume rs))"
proof -
  have "traded_volume (map row_of rs) =
      Inr (List.map_filter (\<lambda>r. if Traded_Volume r \<noteq> None then Some (cell (Traded_Volume r)) else None) rs)"
    unfolding traded_volume_def list_comp_map by (rule list_comp_total) simp
  then show ?thesis unfolding map_filter_cell .
qed

lemma closes_series: "closes (map row_of rs) = Inr (map (\<lambda>r. cell (Close r)) rs)"
proof -
  have "closes (map row_of rs) = Inr (List.map_filter (\<lambda>r. Some (cell (Close r))) rs)"
    unfolding closes_def list_comp_map by (rule list_comp_total) simp
  then show ?thesis by (simp add: List.map_filter_def comp_def)
qed


lemma largest_change_series:
  "largest_change (map row_of rs) =
     (if \<exists>r\<in>set rs. High r = None \<or> Low r = None then Inl TypeError
      else max_num (map (\<lambda>r. the (High r) - the (Low r)) rs))"
proof (cases "\<exists>r\<in>set rs. High r = None \<or> Low r = None")
  case True
  have "list_comp (\<lambda>r. and_then (getitem (row_of r) 2) (\<lambda>h.
          and_then (getitem (row_of r) 3) (\<lambda>l.
          and_then (py_sub h l) (\<lambda>d. Inr (Some d))))) rs = Inl TypeError"
  proof (rule list_comp_raises)
    fix r assume "r \<in> set rs"
    show "and_then (getitem (row_of r) 2) (\<lambda>h. and_then (getitem (row_of r) 3) (\<lambda>l.
            and_then (py_sub h l) (\<lambda>d. Inr (Some d)))) = Inl TypeError
          \<or> (\<exists>y. and_then (getitem (row_of r) 2) (\<lambda>h. and_then (getitem (row_of r) 3) (\<lambda>l.
            and_then (py_sub h l) (\<lambda>d. Inr (Some d)))) = Inr y)"
      by (cases "High r"; cases "Low r") simp_all
  next
    from True obtain r where r: "r \<in> set rs" "High r = None \<or> Low r = None" by blast
    then have "and_then (getitem (row_of r) 2) (\<lambda>h. and_then (getitem (row_of r) 3) (\<lambda>l.
            and_then (py_sub h l) (\<lambda>d. Inr (Some d)))) = Inl TypeError"
      by (cases "High r"; cases "Low r") auto
    with r(1) show "\<exists>r\<in>set rs. and_then (getitem (row_of r) 2) (\<lambda>h. and_then (getitem (row_of r) 3) (\<lambda>l.
            and_then (py_sub h l) (\<lambda>d. Inr (Some d)))) = Inl TypeError" by blast
  qed
  with True show ?thesis by (simp add: largest_change_def list_comp_map)
next
  case False
  have "list_comp (\<lambda>r. and_then (getitem (row_of r) 2) (\<lambda>h.
          and_then (getitem (row_of r) 3) (\<lambda>l.
          and_then (py_sub h l) (\<lambda>d. Inr (Some d))))) rs
        = Inr (List.map_filter (\<lambda>r. Some (the (High r) - the (Low r))) rs)"
  proof (rule list_comp_total)
    fix r assume "r \<in> set rs"
    with False obtain h l where "High r = Some h" "Low r = Some l" by auto
    then show "and_then (getitem (row_of r) 2) (\<lambda>h. and_then (getitem (row_of r) 3) (\<lambda>l.
            and_then (py_sub h l) (\<lambda>d. Inr (Some d)))) = Inr (Some (the (High r) - the (Low r)))"
      by simp
  qed
  then have "largest_change (map row_of rs) = max_num (map (\<lambda>r. the (High r) - the (Low r)) rs)"
    by (simp add: largest_change_def list_comp_map List.map_filter_def comp_def)
  then show ?thesis using False by (simp only: if_False)
qed

lemma enumerate_nth: "enumerate 0 xs = map (\<lambda>i. (i, xs ! i)) [0..<length xs]"
  by (rule nth_equalityI) (simp_all add: nth_enumerate_eq)

lemma getitem_prev:
  "i < length xs \<Longrightarrow> getitem xs (int i - 1) = Inr (if i = 0 then xs ! (length xs - 1) else xs ! (i - 1))"
  by (auto simp: getitem_def nat_diff_distrib' intro!: arg_cong[where f = "nth xs"])

lemma getitem_last: "xs \<noteq> [] \<Longrightarrow> getitem xs (- 1) = Inr (xs ! (length xs - 1))"
  using getitem_prev[of 0 xs] by simp

lemma map_filter_if:
  "List.map_filter (\<lambda>i. if Q i then Some (f i) else None) xs = map f (filter Q xs)"
  by (induction xs) (simp_all add: List.map_filter_simps)

lemma map_filter_positive:
  "List.map_filter (\<lambda>i. if P i \<and> 0 < i then Some (f i) else None) [0..<n]
     = map f (filter P [1..<n])"
proof (cases n)
  case 0
  then show ?thesis by (simp add: List.map_filter_simps)
next
  case (Suc m)
  have "[0..<n] = 0 # [1..<n]" using Suc by (simp add: upt_rec)
  moreover have "filter (\<lambda>i. P i \<and> 0 < i) [1..<n] = filter P [1..<n]"
    by (rule filter_cong) auto
  ultimately show ?thesis by (simp add: map_filter_if)
qed

lemma overnight_changes_positional: "overnight_changes (map cell cs) = Inr (adjacent_deltas cs)"
proof -
  let ?cls = "map cell cs"
  let ?body = "\<lambda>(key, val).
        if val \<noteq> JNull then
          and_then (getitem ?cls (int key - 1)) (\<lambda>prev.
            if prev \<noteq> JNull \<and> 0 < key
            then and_then (py_sub val prev) (\<lambda>d. Inr (Some d))
            else Inr None)
        else Inr None"
  let ?g = "\<lambda>i. if (cs ! i \<noteq> None \<and> cs ! (i - 1) \<noteq> None) \<and> 0 < i
                then Some (the (cs ! i) - the (cs ! (i - 1))) else None"
  have "list_comp (\<lambda>i. ?body (i, ?cls ! i)) [0..<length ?cls] = Inr (List.map_filter ?g [0..<length ?cls])"
  proof (rule list_comp_total)
    fix i assume "i \<in> set [0..<length ?cls]"
    then have i: "i < length cs" by simp
    show "?body (i, ?cls ! i) = Inr (?g i)"
    proof (cases "cs ! i")
      case None
      with i show ?thesis by simp
    next
      case (Some a)
      show ?thesis
      proof (cases "i = 0")
        case True
        with i Some show ?thesis by (simp add: getitem_last)
      next
        case False
        with i have "i - 1 < length cs" by simp
        with i Some False show ?thesis
          by (cases "cs ! (i - 1)") (simp_all add: getitem_prev)
      qed
    qed
  qed
  moreover have "overnight_changes ?cls = list_comp (\<lambda>i. ?body (i, ?cls ! i)) [0..<length ?cls]"
    by (simp only: overnight_changes_def enumerate_nth list_comp_map)
  moreover have "List.map_filter ?g [0..<length ?cls] = adjacent_deltas cs"
    by (simp only: map_filter_positive adjacent_deltas_def adjacent_pairs_def length_map)
  ultimately show ?thesis by (simp only:)
qed

lemma adjacent_pairs_set:
  "set (adjacent_pairs cs) = {i. 1 \<le> i \<and> i < length cs \<and> cs ! i \<noteq> None \<and> cs ! (i - 1) \<noteq> None}"
  by (auto simp: adjacent_pairs_def)

lemma list_comp_to_num:
  "list_comp (\<lambda>x. and_then (to_num x) (\<lambda>a. Inr (Some a))) (map JNum vs) = Inr vs"
proof -
  have "list_comp (\<lambda>v. and_then (to_num (JNum v)) (\<lambda>a. Inr (Some a))) vs
      = Inr (List.map_filter Some vs)"
    by (rule list_comp_total) simp
  then show ?thesis by (simp add: list_comp_map List.map_filter_def)
qed

lemma statistics_mean_nums:
  "statistics_mean (map JNum vs) =
     (if vs = [] then Inl StatisticsError else Inr (arithmetic_mean vs))"
proof (cases "vs = []")
  case True
  then show ?thesis by (simp add: statistics_mean_def)
next
  case False
  then have "\<not> length (map JNum vs) < 1" by (cases vs) simp_all
  then show ?thesis using False
    by (simp only: statistics_mean_def list_comp_to_num arithmetic_mean_def if_False
        and_then_Inr length_map)
qed

lemma py_sorted_nums: "py_sorted (map JNum vs) = Inr (map JNum (sort vs))"
proof (cases "length vs \<le> 1")
  case True
  then have "vs = [] \<or> (\<exists>v. vs = [v])" by (cases vs) auto
  then show ?thesis by (auto simp: py_sorted_def)
next
  case False
  moreover have "list_all is_JNum (map JNum vs)" by (simp add: list_all_iff)
  moreover have "map num_of (map JNum vs) = vs" by (simp add: comp_def)
  ultimately show ?thesis by (simp add: py_sorted_def)
qed

lemma statistics_median_nums:
  "statistics_median (map JNum vs) =
     (if vs = [] then Inl StatisticsError else Inr (JNum (standard_median vs)))"
proof (cases "vs = []")
  case True
  then show ?thesis using py_sorted_nums[of "[]"] by (simp add: statistics_median_def)
next
  case False
  let ?s = "sort vs"
  let ?n = "length vs"
  have n: "0 < ?n" using False by simp
  have "length ?s = ?n" by simp
  with n have s: "?s \<noteq> []" by (metis length_0_conv less_numeral_extra(3))
  show ?thesis
  proof (cases "odd ?n")
    case True
    then have "?n mod 2 = 1" by (simp add: odd_iff_mod_2_eq_one)
    moreover have "?n div 2 < length ?s" using n by simp
    ultimately show ?thesis using False True s
      by (simp add: statistics_median_def py_sorted_nums standard_median_def Let_def)
  next
    case even: False
    then have m: "?n mod 2 = 0" by simp
    with n have "2 \<le> ?n" by presburger
    then have "?n div 2 - 1 < length ?s" "?n div 2 < length ?s" by simp_all
    then show ?thesis using False even m s
      by (simp add: statistics_median_def py_sorted_nums standard_median_def Let_def)
  qed
qed

lemma avg_volume_series:
  "avg_volume (map row_of series) =
     (if non_null Traded_Volume series = [] then Inl StatisticsError
      else Inr (arithmetic_mean (non_null Traded_Volume series)))"
  by (simp add: avg_volume_def traded_volume_series statistics_mean_nums non_null_def)

lemma median_volume_series:
  "median_volume (map row_of series) =
     (if non_null Traded_Volume series = [] then Inl StatisticsError
      else Inr (JNum (standard_median (non_null Traded_Volume series))))"
  by (simp add: median_volume_def traded_volume_series statistics_median_nums non_null_def)

lemma openExtrema_series:
  "openExtrema (map row_of series) =
     (if non_null Open series = [] then Inl ValueError
      else Inr (JNum (Min (set (non_null Open series))), JNum (Max (set (non_null Open series)))))"
  by (simp add: openExtrema_def opens_series py_max_nums py_min_nums non_null_def)

lemma largest_overnight_eq:
  "largest_overnight ds =
     (if ds = [] then Inl ValueError
      else Inr (if \<bar>Min (set ds)\<bar> > Max (set ds) then Decrease \<bar>Min (set ds)\<bar>
                else Increase (Max (set ds))))"
  by (simp add: largest_overnight_def max_num_eq min_num_eq)

lemma maxAdjacentCloseChange_series:
  "maxAdjacentCloseChange (map row_of series) = largest_overnight (adjacent_deltas (map Close series))"
  using overnight_changes_positional[of "map Close series"]
  by (simp add: maxAdjacentCloseChange_def closes_series comp_def)

subsection \<open>Reordering a series\<close>

lemma mset_non_null:
  "mset xs = mset ys \<Longrightarrow> mset (non_null f xs) = mset (non_null f ys)"
proof -
  assume "mset xs = mset ys"
  then have "image_mset (the \<circ> f) (filter_mset (\<lambda>x. f x \<noteq> None) (mset xs))
      = image_mset (the \<circ> f) (filter_mset (\<lambda>x. f x \<noteq> None) (mset ys))"
    by (rule arg_cong)
  then show ?thesis
    by (simp only: non_null_def List.map_filter_def mset_filter mset_map)
qed

lemma set_non_null: "mset xs = mset ys \<Longrightarrow> set (non_null f xs) = set (non_null f ys)"
  by (metis mset_non_null set_mset_mset)

lemma nil_non_null: "mset xs = mset ys \<Longrightarrow> (non_null f xs = []) = (non_null f ys = [])"
  by (metis mset_non_null mset_zero_iff)

lemma sort_mset: "mset vs = mset ws \<Longrightarrow> sort vs = sort (ws :: rat list)"
  by (metis mset_sort properties_for_sort sorted_sort)

lemma standard_median_mset: "mset vs = mset ws \<Longrightarrow> standard_median vs = standard_median ws"
  by (simp add: standard_median_def sort_mset[of vs ws])

lemma arithmetic_mean_mset: "mset vs = mset ws \<Longrightarrow> arithmetic_mean vs = arithmetic_mean ws"
  by (metis arithmetic_mean_def mset_eq_length sum_mset_sum_list)

lemma openExtrema_mset:
  assumes "mset xs = mset ys"
  shows "openExtrema (map row_of xs) = openExtrema (map row_of ys)"
  by (simp only: openExtrema_series set_non_null[OF assms] nil_non_null[OF assms])

lemma avg_volume_mset:
  assumes "mset xs = mset ys"
  shows "avg_volume (map row_of xs) = avg_volume (map row_of ys)"
  by (simp only: avg_volume_series nil_non_null[OF assms]
      arithmetic_mean_mset[OF mset_non_null[OF assms]])

lemma median_volume_mset:
  assumes "mset xs = mset ys"
  shows "median_volume (map row_of xs) = median_volume (map row_of ys)"
  by (simp only: median_volume_series nil_non_null[OF assms]
      standard_median_mset[OF mset_non_null[OF assms]])

lemma largest_change_mset:
  assumes "mset xs = mset ys"
  shows "largest_change (map row_of xs) = largest_change (map row_of ys)"
proof -
  from assms have s: "set xs = set ys" by (rule mset_eq_setD)
  from assms have "(xs = []) = (ys = [])" by (metis mset_zero_iff)
  then show ?thesis
    by (simp add: largest_change_series max_num_eq s)
qed

lemma largest_change_complete:
  assumes "\<forall>r\<in>set series. High r \<noteq> None \<and> Low r \<noteq> None"
  shows "largest_change (map row_of series) =
     (if series = [] then Inl ValueError
      else Inr (Max (set (map (\<lambda>r. the (High r) - the (Low r)) series))))"
proof -
  from assms have "\<not> (\<exists>r\<in>set series. High r = None \<or> Low r = None)" by blast
  then show ?thesis by (simp only: largest_change_series if_False max_num_eq map_is_Nil_conv)
qed

subsection \<open>The dictionary of columns\<close>

lemma getitem_nat:
  "getitem xs (int i) = (if i < length xs then Inr (xs ! i) else Inl IndexError)"
  by (simp add: getitem_def)

lemma column_loop_eq:
  "column_loop i data acc =
     (if \<forall>row\<in>set data. i < length row then Inr (acc @ map (\<lambda>row. row ! i) data)
      else Inl IndexError)"
  by (induction data arbitrary: acc) (simp_all add: getitem_nat)

lemma index_of_Some: "index_of xs x = Some i \<Longrightarrow> i < length xs \<and> xs ! i = x"
  by (induction xs arbitrary: i) (auto split: if_splits)

lemma index_of_None: "(index_of xs x = None) = (x \<notin> set xs)"
  by (induction xs) auto

lemma index_of_member: "x \<in> set xs \<Longrightarrow> \<exists>i. index_of xs x = Some i"
  using index_of_None[of xs x] by (cases "index_of xs x") auto

lemma index_of_distinct: "distinct xs \<Longrightarrow> i < length xs \<Longrightarrow> index_of xs (xs ! i) = Some i"
proof (induction xs arbitrary: i)
  case Nil
  then show ?case by simp
next
  case (Cons a xs)
  show ?case
  proof (cases i)
    case 0
    then show ?thesis by simp
  next
    case (Suc j)
    with Cons.prems have "xs ! j \<in> set xs" "a \<notin> set xs" by simp_all
    then have "a \<noteq> xs ! j" by blast
    with Suc Cons show ?thesis by simp
  qed
qed

lemma names_loop_eq:
  assumes "set ns \<subseteq> set names"
  shows "names_loop names data ns d =
     (if rows_reach names ns data
      then Inr (\<lambda>k. if k \<in> set ns then column_of names data k else d k)
      else Inl IndexError)"
  using assms
proof (induction ns arbitrary: d)
  case Nil
  then show ?case by (simp add: rows_reach_def)
next
  case (Cons n ns)
  then obtain i where i: "index_of names n = Some i" using index_of_member[of n names] by auto
  have sub: "set ns \<subseteq> set names" using Cons.prems by simp
  show ?case
  proof (cases "\<forall>row\<in>set data. i < length row")
    case False
    then have "\<not> rows_reach names (n # ns) data" using i by (auto simp: rows_reach_def)
    moreover have "column_loop i data [] = Inl IndexError"
      using False column_loop_eq[of i data "[]"] by auto
    ultimately show ?thesis using i by (simp add: list_index_def)
  next
    case True
    have reach: "rows_reach names (n # ns) data = rows_reach names ns data"
      using True i by (auto simp: rows_reach_def)
    have col: "column_of names data n = Some (map (\<lambda>row. row ! i) data)"
      by (simp add: column_of_def i)
    have "names_loop names data (n # ns) d
        = names_loop names data ns (d(n \<mapsto> map (\<lambda>row. row ! i) data))"
    proof -
      have "column_loop i data [] = Inr (map (\<lambda>row. row ! i) data)"
        using True column_loop_eq[of i data "[]"] by auto
      then show ?thesis using i by (simp add: list_index_def)
    qed
    also have "\<dots> = (if rows_reach names ns data
      then Inr (\<lambda>k. if k \<in> set ns then column_of names data k
                      else (d(n \<mapsto> map (\<lambda>row. row ! i) data)) k)
      else Inl IndexError)"
      by (rule Cons.IH[OF sub])
    also have "\<dots> = (if rows_reach names (n # ns) data
      then Inr (\<lambda>k. if k \<in> set (n # ns) then column_of names data k else d k)
      else Inl IndexError)"
      unfolding reach using col by (auto intro!: ext)
    finally show ?thesis .
  qed
qed

lemma column_of_absent: "k \<notin> set names \<Longrightarrow> column_of names data k = None"
  by (simp add: column_of_def index_of_None)

lemma afx_dict_eq:
  "afx_dict names data =
     (if rows_reach names names data then Inr (column_of names data) else Inl IndexError)"
proof -
  have "(\<lambda>k. if k \<in> set names then column_of names data k else Map.empty k) = column_of names data"
    by (rule ext) (simp add: column_of_absent)
  then show ?thesis
    using names_loop_eq[of names names data Map.empty] by (simp add: afx_dict_def)
qed

lemma rows_reach_distinct:
  assumes "distinct names"
  shows "rows_reach names names data = (\<forall>row\<in>set data. length names \<le> length row)"
proof
  assume r: "rows_reach names names data"
  show "\<forall>row\<in>set data. length names \<le> length row"
  proof
    fix row assume row: "row \<in> set data"
    show "length names \<le> length row"
    proof (cases "names = []")
      case True
      then show ?thesis by simp
    next
      case False
      let ?j = "length names - 1"
      have j: "?j < length names" using False by simp
      then have "names ! ?j \<in> set names" by simp
      moreover have "index_of names (names ! ?j) = Some ?j"
        using assms j by (rule index_of_distinct)
      ultimately have "?j < length row" using r row by (auto simp: rows_reach_def)
      then show ?thesis using j by simp
    qed
  qed
next
  assume a: "\<forall>row\<in>set data. length names \<le> length row"
  show "rows_reach names names data"
    unfolding rows_reach_def
  proof (intro ballI)
    fix n row assume "n \<in> set names" "row \<in> set data"
    then obtain i where "index_of names n = Some i" using index_of_member by fastforce
    moreover from this have "i < length names" using index_of_Some by fastforce
    ultimately show "the (index_of names n) < length row"
      using a \<open>row \<in> set data\<close> by fastforce
  qed
qed

subsection \<open>Reordering the columns\<close>

lemma list_comp_cong:
  "(\<And>x. x \<in> set xs \<Longrightarrow> f x = g x) \<Longrightarrow> list_comp f xs = list_comp g xs"
  by (induction xs) simp_all

lemma permutation_facts:
  assumes "mset p = mset [0..<n]"
  shows "set p = {0..<n}" "distinct p" "length p = n"
proof -
  from assms show "set p = {0..<n}" by (metis mset_eq_setD set_upt)
  from assms show "distinct p" by (metis distinct_upt mset_eq_imp_distinct_iff)
  from assms show "length p = n" by (metis length_upt mset_eq_length minus_nat.diff_0)
qed

lemma permute_columns_nth:
  "j < length p \<Longrightarrow> permute_columns p xs ! j = xs ! (p ! j)"
  by (simp add: permute_columns_def)

lemma length_permute_columns [simp]: "length (permute_columns p xs) = length p"
  by (simp add: permute_columns_def)

lemma permuted_names:
  assumes "distinct names" and "mset p = mset [0..<length names]"
  shows "distinct (permute_columns p names)" "set (permute_columns p names) = set names"
proof -
  note pf = permutation_facts[OF assms(2)]
  have "inj_on (nth names) (set p)"
    using assms(1) pf(1) by (intro inj_on_nth) auto
  then show "distinct (permute_columns p names)"
    using pf(2) by (simp add: permute_columns_def distinct_map)
  have "set (permute_columns p names) = nth names ` {0..<length names}"
    by (simp add: permute_columns_def pf(1))
  then show "set (permute_columns p names) = set names"
    by (simp add: nth_image)
qed

lemma column_of_permuted:
  assumes "distinct names" and "mset p = mset [0..<length names]"
  shows "column_of (permute_columns p names) (map (permute_columns p) data) = column_of names data"
proof (rule ext)
  fix k
  note pf = permutation_facts[OF assms(2)]
  note pn = permuted_names[OF assms]
  show "column_of (permute_columns p names) (map (permute_columns p) data) k = column_of names data k"
  proof (cases "k \<in> set names")
    case False
    then show ?thesis using pn(2) by (simp add: column_of_absent)
  next
    case True
    then have "k \<in> set (permute_columns p names)" using pn(2) by simp
    then obtain j where j: "j < length p" "permute_columns p names ! j = k"
      by (metis in_set_conv_nth length_permute_columns)
    then have pj: "p ! j < length names" "names ! (p ! j) = k"
      using pf(1) by (auto simp: permute_columns_nth dest: nth_mem)
    have "index_of (permute_columns p names) k = Some j"
      using index_of_distinct[OF pn(1), of j] j by simp
    moreover have "index_of names k = Some (p ! j)"
      using index_of_distinct[OF assms(1) pj(1)] pj(2) by simp
    ultimately show ?thesis using j(1)
      by (simp add: column_of_def comp_def permute_columns_nth)
  qed
qed

lemma afx_dict_permuted:
  assumes "distinct names" and "\<forall>row\<in>set data. length row = length names"
      and "mset p = mset [0..<length names]"
  shows "afx_dict (permute_columns p names) (map (permute_columns p) data) = afx_dict names data"
proof -
  note pf = permutation_facts[OF assms(3)]
  note pn = permuted_names[OF assms(1,3)]
  have "rows_reach names names data"
    using assms(2) by (simp add: rows_reach_distinct[OF assms(1)])
  moreover have "rows_reach (permute_columns p names) (permute_columns p names)
      (map (permute_columns p) data)"
    by (simp add: rows_reach_distinct[OF pn(1)])
  ultimately show ?thesis
    by (simp only: afx_dict_eq if_True column_of_permuted[OF assms(1,3)])
qed

lemma getitem_permuted:
  assumes "length row = length p" and "k < length p \<longrightarrow> p ! k = k"
  shows "getitem (permute_columns p row) (int k) = getitem row (int k)"
  using assms by (simp add: getitem_nat permute_columns_nth)

lemma getitem_kept:
  assumes "length row = length p" and "keeps_positions p"
  shows "getitem (permute_columns p row) 1 = getitem row 1"
        "getitem (permute_columns p row) 2 = getitem row 2"
        "getitem (permute_columns p row) 3 = getitem row 3"
        "getitem (permute_columns p row) 4 = getitem row 4"
        "getitem (permute_columns p row) 6 = getitem row 6"
  using assms getitem_permuted[of row p 1] getitem_permuted[of row p 2]
    getitem_permuted[of row p 3] getitem_permuted[of row p 4] getitem_permuted[of row p 6]
  by (simp_all add: keeps_positions_def)

lemma kept_cells:
  assumes "\<forall>row\<in>set data. length row = length p" and "keeps_positions p"
  shows "opens (map (permute_columns p) data) = opens data"
    and "closes (map (permute_columns p) data) = closes data"
    and "traded_volume (map (permute_columns p) data) = traded_volume data"
    and "largest_change (map (permute_columns p) data) = largest_change data"
proof -
  have g: "\<And>row. row \<in> set data \<Longrightarrow> length row = length p" using assms(1) by blast
  show "opens (map (permute_columns p) data) = opens data"
    unfolding opens_def list_comp_map
    by (rule list_comp_cong) (simp add: getitem_kept[OF g assms(2)] cong: if_cong)
  show "closes (map (permute_columns p) data) = closes data"
    unfolding closes_def list_comp_map
    by (rule list_comp_cong) (simp add: getitem_kept[OF g assms(2)] cong: if_cong)
  show "traded_volume (map (permute_columns p) data) = traded_volume data"
    unfolding traded_volume_def list_comp_map
    by (rule list_comp_cong) (simp add: getitem_kept[OF g assms(2)] cong: if_cong)
  have "list_comp (\<lambda>i. and_then (getitem (permute_columns p i) 2) (\<lambda>h.
                               and_then (getitem (permute_columns p i) 3) (\<lambda>l.
                               and_then (py_sub h l) (\<lambda>d. Inr (Some d))))) data
      = list_comp (\<lambda>i. and_then (getitem i 2) (\<lambda>h.
                               and_then (getitem i 3) (\<lambda>l.
                               and_then (py_sub h l) (\<lambda>d. Inr (Some d))))) data"
    by (rule list_comp_cong) (simp add: getitem_kept[OF g assms(2)] cong: if_cong)
  then show "largest_change (map (permute_columns p) data) = largest_change data"
    by (simp only: largest_change_def list_comp_map)
qed

subsection \<open>The two loops over the closes\<close>

lemma drop_one_nth: "drop 1 xs = map (\<lambda>i. xs ! i) [1..<length xs]"
  by (rule nth_equalityI) simp_all

lemma overnight_changes_p0_distinct:
  assumes "distinct vs"
  shows "overnight_changes_p0 (map JNum vs) = Inr (map (\<lambda>i. vs ! i - vs ! (i - 1)) [1..<length vs])"
proof -
  let ?cls = "map JNum vs"
  let ?body = "\<lambda>item. and_then (list_index ?cls item) (\<lambda>j.
        and_then (getitem ?cls (int j - 1)) (\<lambda>prev.
        and_then (py_sub item prev) (\<lambda>x. Inr (Some x))))"
  have d: "distinct ?cls" using assms by (simp add: distinct_map inj_on_def)
  have "list_comp (\<lambda>i. ?body (?cls ! i)) [1..<length ?cls]
      = Inr (List.map_filter (\<lambda>i. Some (vs ! i - vs ! (i - 1))) [1..<length ?cls])"
  proof (rule list_comp_total)
    fix i assume "i \<in> set [1..<length ?cls]"
    then have i: "1 \<le> i" "i < length vs" by simp_all
    then have "index_of ?cls (?cls ! i) = Some i" using index_of_distinct[OF d, of i] by simp
    then have "list_index ?cls (?cls ! i) = Inr i" by (simp add: list_index_def)
    moreover have "getitem ?cls (int i - 1) = Inr (?cls ! (i - 1))"
      using i getitem_prev[of i ?cls] by simp
    moreover have "?cls ! i = JNum (vs ! i)" "?cls ! (i - 1) = JNum (vs ! (i - 1))"
      using i by simp_all
    ultimately show "?body (?cls ! i) = Inr (Some (vs ! i - vs ! (i - 1)))" by simp
  qed
  moreover have "overnight_changes_p0 ?cls = list_comp (\<lambda>i. ?body (?cls ! i)) [1..<length ?cls]"
    by (simp only: overnight_changes_p0_def drop_one_nth list_comp_map)
  ultimately show ?thesis by (simp add: List.map_filter_def comp_def)
qed

lemma adjacent_deltas_present:
  "adjacent_deltas (map Some vs) = map (\<lambda>i. vs ! i - vs ! (i - 1)) [1..<length vs]"
proof -
  have "filter (\<lambda>i. map Some vs ! i \<noteq> None \<and> map Some vs ! (i - 1) \<noteq> None) [1..<length vs]
      = [1..<length vs]"
    by (rule filter_True) (auto simp: less_imp_diff_less)
  then show ?thesis
    by (auto simp: adjacent_deltas_def adjacent_pairs_def less_imp_diff_less)
qed

lemma cell_Some: "map cell (map Some vs) = map JNum vs"
  by simp

lemma overnight_changes_present:
  "overnight_changes (map JNum vs) = Inr (map (\<lambda>i. vs ! i - vs ! (i - 1)) [1..<length vs])"
  using overnight_changes_positional[of "map Some vs"]
  by (simp only: cell_Some adjacent_deltas_present)

lemma cell_the: "v \<noteq> None \<Longrightarrow> cell v = JNum (the v)"
  by (cases v) simp_all

lemma present_closes:
  assumes "None \<notin> set cs"
  shows "map cell cs = map JNum (map the cs)"
  using assms by (induction cs) (auto simp: cell_the)

subsection \<open>The second notebook on a series of daily records\<close>

lemma column_names_facts:
  "distinct column_names" "length column_names = 11"
  "index_of column_names ''Open'' = Some 1"
  "index_of column_names ''High'' = Some 2"
  "index_of column_names ''Low'' = Some 3"
  "index_of column_names ''Close'' = Some 4"
  "index_of column_names ''Traded Volume'' = Some 6"
  by (simp_all add: column_names_def)

lemma length_row_of [simp]: "length (row_of r) = 11"
  by (simp add: row_of_def)

lemma afx_dict_series:
  "afx_dict column_names (map row_of xs) = Inr (column_of column_names (map row_of xs))"
  by (simp add: afx_dict_eq rows_reach_distinct[OF column_names_facts(1)] column_names_facts(2))

lemma dict_get_series:
  "dict_get (column_of column_names (map row_of xs)) ''Open'' = Inr (map (\<lambda>r. cell (Open r)) xs)"
  "dict_get (column_of column_names (map row_of xs)) ''High'' = Inr (map (\<lambda>r. cell (High r)) xs)"
  "dict_get (column_of column_names (map row_of xs)) ''Low'' = Inr (map (\<lambda>r. cell (Low r)) xs)"
  "dict_get (column_of column_names (map row_of xs)) ''Close'' = Inr (map (\<lambda>r. cell (Close r)) xs)"
  "dict_get (column_of column_names (map row_of xs)) ''Traded Volume''
     = Inr (map (\<lambda>r. cell (Traded_Volume r)) xs)"
  by (simp_all add: dict_get_def column_of_def column_names_facts row_of_def comp_def)

lemma filter_present: "filter (\<lambda>i. i \<noteq> JNull) (map (\<lambda>r. cell (f r)) xs) = map JNum (non_null f xs)"
  by (induction xs) (auto simp: non_null_def List.map_filter_simps split: option.splits)

lemma highest_open_p0_series:
  "and_then (afx_dict column_names (map row_of xs)) highest_open_p0
     = py_max (map JNum (non_null Open xs))"
  by (simp add: afx_dict_series highest_open_p0_def dict_get_series filter_present)

lemma lowest_open_p0_series:
  "and_then (afx_dict column_names (map row_of xs)) lowest_open_p0
     = py_min (map JNum (non_null Open xs))"
  by (simp add: afx_dict_series lowest_open_p0_def dict_get_series filter_present)

lemma zip_columns: "zip (map f xs) (map g xs) = map (\<lambda>r. (f r, g r)) xs"
  by (induction xs) simp_all

lemma largest_change_p0_series:
  "and_then (afx_dict column_names (map row_of xs)) largest_change_p0
     = largest_change (map row_of xs)"
  by (simp add: afx_dict_series largest_change_p0_def daily_changes_p0_def dict_get_series
      zip_columns list_comp_map largest_change_def)

lemma avg_volume_p0_series:
  "and_then (afx_dict column_names (map row_of xs)) avg_volume_p0
     = statistics_mean (map (\<lambda>r. cell (Traded_Volume r)) xs)"
  by (simp add: afx_dict_series avg_volume_p0_def dict_get_series)

lemma mset_short: "mset xs = mset ys \<Longrightarrow> length xs \<le> 1 \<Longrightarrow> xs = ys"
proof -
  assume m: "mset xs = mset ys" and l: "length xs \<le> 1"
  from m have "length ys = length xs" by (metis mset_eq_length)
  with m l show ?thesis
    by (cases xs; cases ys) auto
qed

lemma sort_mset_any: "mset vs = mset ws \<Longrightarrow> sort vs = sort (ws :: 'a :: linorder list)"
  by (metis mset_sort properties_for_sort sorted_sort)

lemma py_sorted_mset:
  assumes "mset xs = mset ys"
  shows "py_sorted xs = py_sorted ys"
proof (cases "length xs \<le> 1")
  case True
  with assms have "xs = ys" by (rule mset_short)
  then show ?thesis by simp
next
  case False
  from assms have l: "length ys = length xs" by (metis mset_eq_length)
  from assms have s: "set xs = set ys" by (rule mset_eq_setD)
  from assms have "mset (map num_of xs) = mset (map num_of ys)" "mset (map str_of xs) = mset (map str_of ys)"
    by simp_all
  then have "sort (map num_of xs) = sort (map num_of ys)" "sort (map str_of xs) = sort (map str_of ys)"
    by (simp_all add: sort_mset_any)
  then show ?thesis using False l s by (simp add: py_sorted_def list_all_iff)
qed

lemma list_comp_nums:
  "list_comp (\<lambda>x. and_then (to_num x) (\<lambda>a. Inr (Some a))) xs
     = (if list_all is_JNum xs then Inr (map num_of xs) else Inl TypeError)"
proof (cases "list_all is_JNum xs")
  case True
  then have "xs = map JNum (map num_of xs)"
    by (induction xs) (auto elim: is_JNum.elims)
  then show ?thesis using True list_comp_to_num[of "map num_of xs"] by simp
next
  case False
  have "list_comp (\<lambda>x. and_then (to_num x) (\<lambda>a. Inr (Some a))) xs = Inl TypeError"
  proof (rule list_comp_raises)
    fix x
    show "and_then (to_num x) (\<lambda>a. Inr (Some a)) = Inl TypeError
        \<or> (\<exists>y. and_then (to_num x) (\<lambda>a. Inr (Some a)) = Inr y)"
      by (cases x) simp_all
  next
    from False obtain x where x: "x \<in> set xs" "\<not> is_JNum x" by (auto simp: list_all_iff)
    have "and_then (to_num x) (\<lambda>a. Inr (Some a)) = Inl TypeError"
      using x(2) by (cases x) simp_all
    with x(1) show "\<exists>x\<in>set xs. and_then (to_num x) (\<lambda>a. Inr (Some a)) = Inl TypeError"
      by blast
  qed
  with False show ?thesis by simp
qed

lemma statistics_mean_mset:
  assumes "mset xs = mset ys"
  shows "statistics_mean xs = statistics_mean ys"
proof -
  from assms have l: "length ys = length xs" by (metis mset_eq_length)
  from assms have s: "set xs = set ys" by (rule mset_eq_setD)
  from assms have "mset (map num_of xs) = mset (map num_of ys)" by simp
  then have "sum_list (map num_of xs) = sum_list (map num_of ys)"
    by (metis sum_mset_sum_list)
  then show ?thesis using l s
    by (simp add: statistics_mean_def list_comp_nums list_all_iff)
qed

lemma median_volume_p0_column:
  "d ''Traded Volume'' = Some col \<Longrightarrow> d' ''Traded Volume'' = Some col' \<Longrightarrow> mset col = mset col'
     \<Longrightarrow> median_volume_p0 d = median_volume_p0 d'"
proof -
  assume d: "d ''Traded Volume'' = Some col" "d' ''Traded Volume'' = Some col'"
    and m: "mset col = mset col'"
  from m have "length col' = length col" by (metis mset_eq_length)
  moreover from m have "py_sorted col = py_sorted col'" by (rule py_sorted_mset)
  ultimately show ?thesis using d by (simp add: median_volume_p0_def dict_get_def)
qed

lemma column_mset: "mset xs = mset ys \<Longrightarrow> mset (map f xs) = mset (map f ys)"
  by simp

lemma volume_column:
  "column_of column_names (map row_of xs) ''Traded Volume''
     = Some (map (\<lambda>r. cell (Traded_Volume r)) xs)"
  by (simp add: column_of_def column_names_facts row_of_def comp_def)

lemma p0_mset:
  assumes "mset xs = mset ys"
  shows "and_then (afx_dict column_names (map row_of xs)) highest_open_p0
           = and_then (afx_dict column_names (map row_of ys)) highest_open_p0"
    and "and_then (afx_dict column_names (map row_of xs)) lowest_open_p0
           = and_then (afx_dict column_names (map row_of ys)) lowest_open_p0"
    and "and_then (afx_dict column_names (map row_of xs)) largest_change_p0
           = and_then (afx_dict column_names (map row_of ys)) largest_change_p0"
    and "and_then (afx_dict column_names (map row_of xs)) avg_volume_p0
           = and_then (afx_dict column_names (map row_of ys)) avg_volume_p0"
    and "and_then (afx_dict column_names (map row_of xs)) median_volume_p0
           = and_then (afx_dict column_names (map row_of ys)) median_volume_p0"
proof -
  show "and_then (afx_dict column_names (map row_of xs)) highest_open_p0
           = and_then (afx_dict column_names (map row_of ys)) highest_open_p0"
    by (simp only: highest_open_p0_series py_max_nums set_non_null[OF assms] nil_non_null[OF assms])
  show "and_then (afx_dict column_names (map row_of xs)) lowest_open_p0
           = and_then (afx_dict column_names (map row_of ys)) lowest_open_p0"
    by (simp only: lowest_open_p0_series py_min_nums set_non_null[OF assms] nil_non_null[OF assms])
  show "and_then (afx_dict column_names (map row_of xs)) largest_change_p0
           = and_then (afx_dict column_names (map row_of ys)) largest_change_p0"
    by (simp only: largest_change_p0_series largest_change_mset[OF assms])
  show "and_then (afx_dict column_names (map row_of xs)) avg_volume_p0
           = and_then (afx_dict column_names (map row_of ys)) avg_volume_p0"
    by (simp only: avg_volume_p0_series statistics_mean_mset[OF column_mset[OF assms]])
  show "and_then (afx_dict column_names (map row_of xs)) median_volume_p0
           = and_then (afx_dict column_names (map row_of ys)) median_volume_p0"
    using median_volume_p0_column[of "column_of column_names (map row_of xs)" _
        "column_of column_names (map row_of ys)" _, OF volume_column volume_column
        column_mset[OF assms]]
    by (simp only: afx_dict_series and_then_Inr)
qed

subsection \<open>Where a cell raises on every input of a kind\<close>

text \<open>
  An absent high or low makes the largest intraday change raise in both notebooks.
  In the second notebook an even count of volumes has no median, an absent volume
  no mean, an absent close among two or more no list of changes, and the size of a
  reported decrease is negative.
\<close>

lemma intraday_null_always_raises:
  assumes "\<exists>r\<in>set series. High r = None \<or> Low r = None"
  shows "largest_change (map row_of series) = Inl TypeError"
    and "and_then (afx_dict column_names (map row_of series)) largest_change_p0 = Inl TypeError"
  using assms by (simp_all only: largest_change_p0_series largest_change_series if_True)

lemma py_sorted_error: "py_sorted xs = Inl e \<Longrightarrow> e = TypeError"
  by (simp add: py_sorted_def split: if_splits)

lemma median_volume_p0_even_count:
  assumes "d ''Traded Volume'' = Some col" and "even (length col)"
  shows "median_volume_p0 d = Inl TypeError"
proof (cases "py_sorted col")
  case (Inl e)
  then have "e = TypeError" by (rule py_sorted_error)
  with Inl assms(1) show ?thesis by (simp add: median_volume_p0_def dict_get_def)
next
  case (Inr s)
  with assms show ?thesis by (simp add: median_volume_p0_def dict_get_def Let_def)
qed

lemma statistics_mean_null:
  assumes "JNull \<in> set col"
  shows "statistics_mean col = Inl TypeError"
proof -
  have "\<not> is_JNum JNull" by simp
  with assms have "\<not> list_all is_JNum col" unfolding list_all_iff by blast
  moreover from assms have "\<not> length col < 1" by (cases col) auto
  ultimately show ?thesis by (simp add: statistics_mean_def list_comp_nums)
qed

lemma avg_volume_p0_null:
  assumes "\<exists>r\<in>set series. Traded_Volume r = None"
  shows "and_then (afx_dict column_names (map row_of series)) avg_volume_p0 = Inl TypeError"
proof -
  from assms have "JNull \<in> set (map (\<lambda>r. cell (Traded_Volume r)) series)" by force
  then show ?thesis by (simp only: avg_volume_p0_series statistics_mean_null)
qed

lemma largest_overnight_p0_eq:
  "largest_overnight_p0 ds =
     (if ds = [] then Inl ValueError
      else Inr (if \<bar>Min (set ds)\<bar> > Max (set ds) then Decrease (Min (set ds))
                else Increase \<bar>Max (set ds)\<bar>))"
  by (simp add: largest_overnight_p0_def max_num_eq min_num_eq)

lemma decrease_p0_negative:
  assumes "largest_overnight_p0 ds = Inr (Decrease m)"
  shows "m < 0"
proof -
  from assms have ne: "ds \<noteq> []"
    by (auto simp: largest_overnight_p0_eq)
  then have "Min (set ds) \<le> Max (set ds)" by simp
  moreover from assms ne have "m = Min (set ds)" "\<bar>Min (set ds)\<bar> > Max (set ds)"
    by (simp_all add: largest_overnight_p0_eq split: if_splits)
  ultimately show ?thesis by linarith
qed

lemma overnight_changes_p0_step:
  assumes "item \<in> set cls"
  shows "and_then (list_index cls item) (\<lambda>j.
        and_then (getitem cls (int j - 1)) (\<lambda>prev.
        and_then (py_sub item prev) (\<lambda>x. Inr (Some x)))) = Inl TypeError
     \<or> (\<exists>y. and_then (list_index cls item) (\<lambda>j.
        and_then (getitem cls (int j - 1)) (\<lambda>prev.
        and_then (py_sub item prev) (\<lambda>x. Inr (Some x)))) = Inr y)"
proof -
  from assms obtain j where j: "index_of cls item = Some j" using index_of_member by fastforce
  then have "j < length cls" using index_of_Some by fastforce
  then obtain prev where "getitem cls (int j - 1) = Inr prev" using getitem_prev by blast
  with j show ?thesis
    by (cases "py_sub item prev") (auto simp: list_index_def elim: py_sub.elims)
qed

lemma overnight_changes_p0_null:
  assumes "None \<in> set cs" and "2 \<le> length cs"
  shows "overnight_changes_p0 (map cell cs) = Inl TypeError"
proof -
  from assms(2) obtain c0 c1 rest where cs: "cs = c0 # c1 # rest"
    by (cases cs; cases "tl cs") auto
  let ?cls = "map cell cs"
  let ?body = "\<lambda>item. and_then (list_index ?cls item) (\<lambda>j.
        and_then (getitem ?cls (int j - 1)) (\<lambda>prev.
        and_then (py_sub item prev) (\<lambda>x. Inr (Some x))))"
  have "list_comp ?body (drop 1 ?cls) = Inl TypeError"
  proof (rule list_comp_raises)
    fix item assume "item \<in> set (drop 1 ?cls)"
    then have "item \<in> set ?cls" by (rule in_set_dropD)
    then show "?body item = Inl TypeError \<or> (\<exists>y. ?body item = Inr y)"
      by (rule overnight_changes_p0_step)
  next
    show "\<exists>item\<in>set (drop 1 ?cls). ?body item = Inl TypeError"
    proof (cases "None \<in> set (c1 # rest)")
      case True
      then have "JNull \<in> set (drop 1 ?cls)" using cs by force
      moreover have "?body JNull = Inl TypeError"
      proof -
        have "JNull \<in> set ?cls" using assms(1) by force
        then obtain j where j: "index_of ?cls JNull = Some j" using index_of_member by fastforce
        then have "j < length ?cls" using index_of_Some by fastforce
        then obtain prev where "getitem ?cls (int j - 1) = Inr prev" using getitem_prev by blast
        with j show ?thesis by (simp add: list_index_def)
      qed
      ultimately show ?thesis by blast
    next
      case False
      with assms(1) cs have c0: "c0 = None" by auto
      from False obtain v where c1: "c1 = Some v" by (cases c1) auto
      have "cell c1 \<in> set (drop 1 ?cls)" using cs by simp
      moreover have "?body (cell c1) = Inl TypeError"
        using cs c0 c1 by (simp add: list_index_def getitem_def)
      ultimately show ?thesis by blast
    qed
  qed
  then show ?thesis by (simp only: overnight_changes_p0_def)
qed

section \<open>The claims\<close>

subsection \<open>Adjacency of closes\<close>

lemma sample_deltas:
  "adjacent_deltas (map Close (close_days [Some 100, None, Some 101, Some 103])) = [2]"
  by code_simp

text \<open>
  In the first notebook, adjacency is positional in the raw sequence of closes: the
  list of changes holds \<open>close[i] - close[i-1]\<close>, in the order of the positions, for
  exactly the positions \<open>i \<ge> 1\<close> whose close and whose predecessor's close are both
  present. An absent close at position \<open>j\<close> so removes the pairs \<open>(j-1, j)\<close> and
  \<open>(j, j+1)\<close> only, and its two neighbours are never paired with each other.
\<close>

theorem adjacency_is_positional:
  "closes (map row_of series) = Inr (map cell (map Close series)) \<and>
   overnight_changes (map cell (map Close series)) = Inr (adjacent_deltas (map Close series)) \<and>
   set (adjacent_pairs (map Close series)) =
     {i. 1 \<le> i \<and> i < length series \<and> Close (series ! i) \<noteq> None \<and> Close (series ! (i - 1)) \<noteq> None}"
proof -
  have "set (adjacent_pairs (map Close series)) =
     {i. 1 \<le> i \<and> i < length series \<and> Close (series ! i) \<noteq> None \<and> Close (series ! (i - 1)) \<noteq> None}"
    unfolding adjacent_pairs_set by (auto simp: less_imp_diff_less)
  moreover have "closes (map row_of series) = Inr (map cell (map Close series))"
    by (simp add: closes_series)
  ultimately show ?thesis
    using overnight_changes_positional[of "map Close series"] by (simp only: simp_thms)
qed

lemma adjacency_is_positional_example:
  "overnight_changes (map cell (map Close (close_days [Some 100, None, Some 101, Some 103]))) = Inr [2]"
  using adjacency_is_positional[of "close_days [Some 100, None, Some 101, Some 103]"]
  by (simp only: sample_deltas)

text \<open>
  Claim C4. Adjacency is positional in the raw sequence: a change
  \<open>close[i] - close[i-1]\<close> is included exactly when both closes are present, and an
  absent close removes only the two pairs it is part of. The first notebook does so
  (above). The loop of the second notebook has no test for an absent close: on the
  closes 100, absent, 101, 103, where the first notebook finds the one change 2, it
  raises at the subtraction.
\<close>

theorem absent_close_p0_raises:
  "overnight_changes (map cell [Some 100, None, Some 101, Some 103]) = Inr [2] \<and>
   overnight_changes_p0 (map cell [Some 100, None, Some 101, Some 103]) = Inl TypeError \<and>
   and_then (afx_dict column_names (map row_of (close_days [Some 100, None, Some 101, Some 103])))
     maxAdjacentCloseChange_p0 = Inl TypeError"
  by code_simp

subsection \<open>The largest change within a day\<close>

text \<open>
  Claim C3. The largest intraday change is to be taken over the records that have both
  a high and a low, the others being left out. Neither notebook leaves them out: a
  record with an absent high or low makes the subtraction raise, also when other
  records are complete.
\<close>

theorem intraday_null_raises:
  "largest_change (map row_of (range_days [(Some 5, Some 3), (None, Some 1)])) = Inl TypeError \<and>
   and_then (afx_dict column_names (map row_of (range_days [(Some 5, Some 3), (None, Some 1)])))
     largest_change_p0 = Inl TypeError"
  by code_simp

subsection \<open>The median of the traded volume\<close>

lemma sample_volumes:
  "non_null Traded_Volume (volume_days [Some 7, None, Some 3, Some 5]) = [7, 3, 5]"
  by code_simp

lemma sample_median: "standard_median [7, 3, 5] = 5"
  by code_simp

text \<open>
  In the first notebook, for every series with at least one traded volume present,
  the median cell returns the standard median of the present traded volumes: after
  sorting ascending, the middle element of an odd count and the average of the two
  middle elements of an even count. On the volumes 10, 20, 30 it returns 20 and on
  10, 20, 30, 40 it returns 25.
\<close>

theorem median_volume_is_standard_median:
  assumes "non_null Traded_Volume series \<noteq> []"
  shows "median_volume (map row_of series)
           = Inr (JNum (standard_median (non_null Traded_Volume series))) \<and>
         median_volume (map row_of (volume_days [Some 10, Some 20, Some 30])) = Inr (JNum 20) \<and>
         median_volume (map row_of (volume_days [Some 10, Some 20, Some 30, Some 40])) = Inr (JNum 25)"
proof -
  have "median_volume (map row_of (volume_days [Some 10, Some 20, Some 30])) = Inr (JNum 20)"
    by code_simp
  moreover have "median_volume (map row_of (volume_days [Some 10, Some 20, Some 30, Some 40])) = Inr (JNum 25)"
    by code_simp
  ultimately show ?thesis using assms by (simp add: median_volume_series)
qed

lemma median_volume_is_standard_median_example:
  "non_null Traded_Volume (volume_days [Some 7, None, Some 3, Some 5]) \<noteq> [] \<and>
   median_volume (map row_of (volume_days [Some 7, None, Some 3, Some 5])) = Inr (JNum 5)"
proof -
  have h: "non_null Traded_Volume (volume_days [Some 7, None, Some 3, Some 5]) \<noteq> []"
    by (simp add: sample_volumes)
  show ?thesis
    using h median_volume_is_standard_median[OF h] by (simp add: sample_volumes sample_median)
qed

text \<open>
  Claim C5. The median of the traded volume is the standard median of the present
  values; on 10, 20, 30 it is 20 and on 10, 20, 30, 40 it is 25. The first notebook
  does so (above). The second notebook computes the median by hand: for an odd count
  it returns the middle element, but for an even count its index
  \<open>median_ref / 2 - 1\<close> is a float, which a list refuses, so that no even count has a
  median there.
\<close>

theorem median_even_count_p0_raises:
  "and_then (afx_dict column_names (map row_of (volume_days [Some 10, Some 20, Some 30])))
     median_volume_p0 = Inr (JNum 20) \<and>
   and_then (afx_dict column_names (map row_of (volume_days [Some 10, Some 20, Some 30, Some 40])))
     median_volume_p0 = Inl TypeError \<and>
   median_volume (map row_of (volume_days [Some 10, Some 20, Some 30, Some 40])) = Inr (JNum 25)"
  by code_simp

subsection \<open>The mean of the traded volume\<close>

text \<open>
  In the first notebook, for every series with at least one traded volume present,
  the mean cell returns the arithmetic mean of exactly the present traded volumes:
  an absent volume is neither counted as zero nor counted in the denominator, and
  does not make the cell fail. On the volumes 100, absent, 300 it returns 200.
\<close>

theorem mean_volume_excludes_nulls:
  assumes "non_null Traded_Volume series \<noteq> []"
  shows "avg_volume (map row_of series) = Inr (arithmetic_mean (non_null Traded_Volume series)) \<and>
         avg_volume (map row_of (volume_days [Some 100, None, Some 300])) = Inr 200"
proof -
  have "avg_volume (map row_of (volume_days [Some 100, None, Some 300])) = Inr 200"
    by code_simp
  then show ?thesis using assms by (simp add: avg_volume_series)
qed

lemma mean_volume_excludes_nulls_example:
  "non_null Traded_Volume (volume_days [Some 7, None, Some 3, Some 5]) \<noteq> [] \<and>
   avg_volume (map row_of (volume_days [Some 7, None, Some 3, Some 5])) = Inr 5"
proof -
  have h: "non_null Traded_Volume (volume_days [Some 7, None, Some 3, Some 5]) \<noteq> []"
    by (simp add: sample_volumes)
  have "arithmetic_mean [7, 3, 5] = 5" by code_simp
  then show ?thesis
    using h mean_volume_excludes_nulls[OF h] by (simp add: sample_volumes)
qed

text \<open>
  Claim C6. The mean of the traded volume is the arithmetic mean of exactly the
  present values, and an absent volume does not make it fail: 100, absent, 300 give
  200. The first notebook does so (above). The second notebook hands the whole
  column to \<open>statistics.mean\<close>, the absent volume included, and fails.
\<close>

theorem mean_absent_volume_p0_raises:
  "and_then (afx_dict column_names (map row_of (volume_days [Some 100, None, Some 300])))
     avg_volume_p0 = Inl TypeError \<and>
   avg_volume (map row_of (volume_days [Some 100, None, Some 300])) = Inr 200"
  by code_simp

subsection \<open>The direction of the largest change of the close\<close>

lemma sample_closes: "adjacent_deltas (map Close (close_days [Some 100, Some 102, Some 99])) = [2, - 3]"
  by code_simp

text \<open>
  In the first notebook, for every series with at least one adjacent pair of present
  closes, the cell takes \<open>pos_max\<close>, the maximum, and \<open>neg_max\<close>, the minimum, of the
  changes between adjacent closes; it reports a decrease of size \<open>abs(neg_max)\<close> if
  \<open>abs(neg_max) > pos_max\<close> and an increase of size \<open>pos_max\<close> otherwise. So a tie is
  an increase (the closes 100, 102, 100 give an increase of 2), and the size of a
  reported decrease is \<open>abs(neg_max)\<close>, which is not negative.
\<close>

theorem direction_policy:
  assumes "ds = adjacent_deltas (map Close series)" and "ds \<noteq> []"
  shows "maxAdjacentCloseChange (map row_of series)
           = Inr (if \<bar>Min (set ds)\<bar> > Max (set ds) then Decrease \<bar>Min (set ds)\<bar>
                  else Increase (Max (set ds))) \<and>
         (\<bar>Min (set ds)\<bar> = Max (set ds) \<longrightarrow>
            maxAdjacentCloseChange (map row_of series) = Inr (Increase (Max (set ds)))) \<and>
         (\<forall>m. maxAdjacentCloseChange (map row_of series) = Inr (Decrease m) \<longrightarrow>
            m = \<bar>Min (set ds)\<bar> \<and> 0 \<le> m) \<and>
         maxAdjacentCloseChange (map row_of (close_days [Some 100, Some 102, Some 100]))
           = Inr (Increase 2)"
proof -
  let ?r = "maxAdjacentCloseChange (map row_of series)"
  have tie_case: "maxAdjacentCloseChange (map row_of (close_days [Some 100, Some 102, Some 100]))
           = Inr (Increase 2)"
    by code_simp
  have policy: "?r = Inr (if \<bar>Min (set ds)\<bar> > Max (set ds) then Decrease \<bar>Min (set ds)\<bar>
                  else Increase (Max (set ds)))"
    using assms by (simp add: maxAdjacentCloseChange_series largest_overnight_eq)
  have tie: "\<bar>Min (set ds)\<bar> = Max (set ds) \<longrightarrow> ?r = Inr (Increase (Max (set ds)))"
    unfolding policy by simp
  have magnitude: "\<forall>m. ?r = Inr (Decrease m) \<longrightarrow> m = \<bar>Min (set ds)\<bar> \<and> 0 \<le> m"
    unfolding policy by (simp split: if_splits)
  from policy tie magnitude tie_case show ?thesis by (intro conjI)
qed

lemma direction_policy_example:
  "[2, - 3] = adjacent_deltas (map Close (close_days [Some 100, Some 102, Some 99])) \<and>
   maxAdjacentCloseChange (map row_of (close_days [Some 100, Some 102, Some 99])) = Inr (Decrease 3)"
proof -
  have h: "[2, - 3] = adjacent_deltas (map Close (close_days [Some 100, Some 102, Some 99]))"
    by (simp only: sample_closes)
  have ne: "[2, - 3 :: rat] \<noteq> []" by simp
  have extrema: "Min (set [2, - 3 :: rat]) = - 3" "Max (set [2, - 3 :: rat]) = 2" by simp_all
  from direction_policy[OF h ne]
  have "maxAdjacentCloseChange (map row_of (close_days [Some 100, Some 102, Some 99]))
      = Inr (if \<bar>Min (set [2, - 3 :: rat])\<bar> > Max (set [2, - 3 :: rat])
             then Decrease \<bar>Min (set [2, - 3 :: rat])\<bar> else Increase (Max (set [2, - 3 :: rat])))"
    by (rule conjunct1)
  also have "\<dots> = Inr (Decrease 3)" unfolding extrema by simp
  finally show ?thesis using h by (intro conjI)
qed

text \<open>
  Claim C1. A decrease is reported with the size \<open>abs(neg_max)\<close>, which is not
  negative, when \<open>abs(neg_max) > pos_max\<close>, and an increase of size \<open>pos_max\<close>
  otherwise. The first notebook does so (above). The second notebook applies the
  same test but hands the signed \<open>neg_max\<close> to the text of a decrease, and the
  absolute value to the other branch: on the closes 100, 102, 99 it reports a
  decrease of \<open>-3\<close>.
\<close>

theorem decrease_size_p0_signed:
  "and_then (afx_dict column_names (map row_of (close_days [Some 100, Some 102, Some 99])))
     maxAdjacentCloseChange_p0 = Inr (Decrease (- 3)) \<and>
   maxAdjacentCloseChange (map row_of (close_days [Some 100, Some 102, Some 99])) = Inr (Decrease 3)"
  by code_simp

subsection \<open>The order of the records\<close>

lemma reordered_closes:
  "maxAdjacentCloseChange (map row_of (close_days [Some 100, Some 102, Some 99])) = Inr (Decrease 3)"
  "maxAdjacentCloseChange (map row_of (close_days [Some 99, Some 100, Some 102])) = Inr (Increase 2)"
  "and_then (afx_dict column_names (map row_of (close_days [Some 100, Some 102, Some 99])))
     maxAdjacentCloseChange_p0 = Inr (Decrease (- 3))"
  "and_then (afx_dict column_names (map row_of (close_days [Some 99, Some 100, Some 102])))
     maxAdjacentCloseChange_p0 = Inr (Increase 2)"
  by code_simp+

text \<open>
  Claim C9. For every series and every permutation of its records, the extrema of
  the open, the largest intraday change, the mean volume and the median volume are
  the same on the permuted series as on the original, an exception included; this
  holds of the cells of both notebooks. The largest change of the close depends on
  the order: some series and some permutation of it give different results, in both
  notebooks.
\<close>

theorem order_independence:
  "(mset xs = mset ys \<longrightarrow>
      openExtrema (map row_of xs) = openExtrema (map row_of ys) \<and>
      largest_change (map row_of xs) = largest_change (map row_of ys) \<and>
      avg_volume (map row_of xs) = avg_volume (map row_of ys) \<and>
      median_volume (map row_of xs) = median_volume (map row_of ys) \<and>
      and_then (afx_dict column_names (map row_of xs)) highest_open_p0
        = and_then (afx_dict column_names (map row_of ys)) highest_open_p0 \<and>
      and_then (afx_dict column_names (map row_of xs)) lowest_open_p0
        = and_then (afx_dict column_names (map row_of ys)) lowest_open_p0 \<and>
      and_then (afx_dict column_names (map row_of xs)) largest_change_p0
        = and_then (afx_dict column_names (map row_of ys)) largest_change_p0 \<and>
      and_then (afx_dict column_names (map row_of xs)) avg_volume_p0
        = and_then (afx_dict column_names (map row_of ys)) avg_volume_p0 \<and>
      and_then (afx_dict column_names (map row_of xs)) median_volume_p0
        = and_then (afx_dict column_names (map row_of ys)) median_volume_p0) \<and>
   (\<exists>us vs. mset us = mset vs \<and>
      maxAdjacentCloseChange (map row_of us) \<noteq> maxAdjacentCloseChange (map row_of vs) \<and>
      and_then (afx_dict column_names (map row_of us)) maxAdjacentCloseChange_p0
        \<noteq> and_then (afx_dict column_names (map row_of vs)) maxAdjacentCloseChange_p0)"
proof (intro conjI impI)
  let ?us = "close_days [Some 100, Some 102, Some 99]"
  let ?vs = "close_days [Some 99, Some 100, Some 102]"
  have "mset ?us = mset ?vs" by (simp add: close_days_def)
  moreover have "maxAdjacentCloseChange (map row_of ?us) \<noteq> maxAdjacentCloseChange (map row_of ?vs)"
    by (simp only: reordered_closes) simp
  moreover have "and_then (afx_dict column_names (map row_of ?us)) maxAdjacentCloseChange_p0
        \<noteq> and_then (afx_dict column_names (map row_of ?vs)) maxAdjacentCloseChange_p0"
    by (simp only: reordered_closes) simp
  ultimately show "\<exists>us vs. mset us = mset vs \<and>
      maxAdjacentCloseChange (map row_of us) \<noteq> maxAdjacentCloseChange (map row_of vs) \<and>
      and_then (afx_dict column_names (map row_of us)) maxAdjacentCloseChange_p0
        \<noteq> and_then (afx_dict column_names (map row_of vs)) maxAdjacentCloseChange_p0"
    by blast
qed (fact openExtrema_mset largest_change_mset avg_volume_mset median_volume_mset p0_mset)+

theorem order_independence_witness:
  "mset [day_a, day_b] = mset [day_b, day_a] \<and>
   openExtrema (map row_of [day_a, day_b]) = Inr (JNum 34, JNum 53) \<and>
   openExtrema (map row_of [day_b, day_a]) = Inr (JNum 34, JNum 53) \<and>
   largest_change (map row_of [day_b, day_a]) = Inr 4 \<and>
   avg_volume (map row_of [day_b, day_a]) = Inr 200 \<and>
   median_volume (map row_of [day_b, day_a]) = Inr (JNum 200)"
proof -
  have h: "mset [day_a, day_b] = mset [day_b, day_a]" by simp
  have a: "openExtrema (map row_of [day_a, day_b]) = Inr (JNum 34, JNum 53)"
    "largest_change (map row_of [day_a, day_b]) = Inr 4"
    "avg_volume (map row_of [day_a, day_b]) = Inr 200"
    "median_volume (map row_of [day_a, day_b]) = Inr (JNum 200)"
    by code_simp+
  from order_independence[of "[day_a, day_b]" "[day_b, day_a]"] h
  have "openExtrema (map row_of [day_a, day_b]) = openExtrema (map row_of [day_b, day_a]) \<and>
      largest_change (map row_of [day_a, day_b]) = largest_change (map row_of [day_b, day_a]) \<and>
      avg_volume (map row_of [day_a, day_b]) = avg_volume (map row_of [day_b, day_a]) \<and>
      median_volume (map row_of [day_a, day_b]) = median_volume (map row_of [day_b, day_a])"
    by blast
  with a h show ?thesis by (simp only: simp_thms)
qed

subsection \<open>No usable value\<close>

lemma blank_usable:
  "non_null Open [blank_day] = []"
  "adjacent_deltas (map Close [blank_day]) = []"
  "non_null Traded_Volume [blank_day] = []"
  by code_simp+

text \<open>
  Claim C7, as the notebook has it. There is no error of the notebook's own: a cell
  that is left with no usable value fails with the exception of the built-in it
  calls, \<open>ValueError\<close> from \<open>max\<close> and \<open>min\<close> and \<open>StatisticsError\<close> from the
  \<open>statistics\<close> module. The extrema of the open, the largest change of the close,
  the mean and the median of the volume fail so exactly when no usable value remains
  once the absent ones are left out, and return a value otherwise, never a default.
  The largest intraday change, on a series whose records all have a high and a low,
  fails so exactly when the series is empty.
\<close>

theorem empty_series_errors:
  "(non_null Open series = [] \<longrightarrow> openExtrema (map row_of series) = Inl ValueError) \<and>
   (non_null Open series \<noteq> [] \<longrightarrow> (\<exists>lo hi. openExtrema (map row_of series) = Inr (JNum lo, JNum hi))) \<and>
   (adjacent_deltas (map Close series) = [] \<longrightarrow>
      maxAdjacentCloseChange (map row_of series) = Inl ValueError) \<and>
   (adjacent_deltas (map Close series) \<noteq> [] \<longrightarrow>
      (\<exists>v. maxAdjacentCloseChange (map row_of series) = Inr v)) \<and>
   (non_null Traded_Volume series = [] \<longrightarrow> avg_volume (map row_of series) = Inl StatisticsError) \<and>
   (non_null Traded_Volume series \<noteq> [] \<longrightarrow> (\<exists>v. avg_volume (map row_of series) = Inr v)) \<and>
   (non_null Traded_Volume series = [] \<longrightarrow> median_volume (map row_of series) = Inl StatisticsError) \<and>
   (non_null Traded_Volume series \<noteq> [] \<longrightarrow> (\<exists>v. median_volume (map row_of series) = Inr (JNum v))) \<and>
   ((\<forall>r\<in>set series. High r \<noteq> None \<and> Low r \<noteq> None) \<longrightarrow>
      (series = [] \<longrightarrow> largest_change (map row_of series) = Inl ValueError) \<and>
      (series \<noteq> [] \<longrightarrow> (\<exists>v. largest_change (map row_of series) = Inr v)))"
proof -
  have opens: "(non_null Open series = [] \<longrightarrow> openExtrema (map row_of series) = Inl ValueError) \<and>
   (non_null Open series \<noteq> [] \<longrightarrow> (\<exists>lo hi. openExtrema (map row_of series) = Inr (JNum lo, JNum hi)))"
    by (simp add: openExtrema_series)
  have closes: "(adjacent_deltas (map Close series) = [] \<longrightarrow>
      maxAdjacentCloseChange (map row_of series) = Inl ValueError) \<and>
   (adjacent_deltas (map Close series) \<noteq> [] \<longrightarrow>
      (\<exists>v. maxAdjacentCloseChange (map row_of series) = Inr v))"
    by (simp add: maxAdjacentCloseChange_series largest_overnight_eq)
  have mean: "(non_null Traded_Volume series = [] \<longrightarrow> avg_volume (map row_of series) = Inl StatisticsError) \<and>
   (non_null Traded_Volume series \<noteq> [] \<longrightarrow> (\<exists>v. avg_volume (map row_of series) = Inr v))"
    by (simp add: avg_volume_series)
  have median: "(non_null Traded_Volume series = [] \<longrightarrow> median_volume (map row_of series) = Inl StatisticsError) \<and>
   (non_null Traded_Volume series \<noteq> [] \<longrightarrow> (\<exists>v. median_volume (map row_of series) = Inr (JNum v)))"
    by (simp add: median_volume_series)
  have range: "(\<forall>r\<in>set series. High r \<noteq> None \<and> Low r \<noteq> None) \<longrightarrow>
      (series = [] \<longrightarrow> largest_change (map row_of series) = Inl ValueError) \<and>
      (series \<noteq> [] \<longrightarrow> (\<exists>v. largest_change (map row_of series) = Inr v))"
  proof (intro impI conjI)
    assume c: "\<forall>r\<in>set series. High r \<noteq> None \<and> Low r \<noteq> None"
    { assume "series = []"
      with largest_change_complete[OF c]
      show "largest_change (map row_of series) = Inl ValueError" by simp }
    { assume "series \<noteq> []"
      with largest_change_complete[OF c]
      show "\<exists>v. largest_change (map row_of series) = Inr v" by simp }
  qed
  from opens closes mean median range show ?thesis by blast
qed

theorem empty_series_errors_witness:
  "non_null Open [blank_day] = [] \<and> openExtrema (map row_of [blank_day]) = Inl ValueError \<and>
   adjacent_deltas (map Close [blank_day]) = [] \<and>
   maxAdjacentCloseChange (map row_of [blank_day]) = Inl ValueError \<and>
   non_null Traded_Volume [blank_day] = [] \<and>
   avg_volume (map row_of [blank_day]) = Inl StatisticsError \<and>
   median_volume (map row_of [blank_day]) = Inl StatisticsError"
  using empty_series_errors[of "[blank_day]"] blank_usable by (simp only: simp_thms)

text \<open>
  On a series of one record with every field absent three cells fail with three
  different exceptions, and the largest intraday change fails also when a complete
  record remains.
\<close>

theorem empty_series_counterexample:
  "openExtrema (map row_of [blank_day]) = Inl ValueError \<and>
   avg_volume (map row_of [blank_day]) = Inl StatisticsError \<and>
   largest_change (map row_of [blank_day]) = Inl TypeError \<and>
   largest_change (map row_of (range_days [(Some 5, Some 3), (None, Some 1)])) = Inl TypeError"
  by code_simp

subsection \<open>Loading the rows\<close>

lemma sample_columns:
  "column_of [''Date'', ''Open''] [[JNull, JNum 1], [JStr ''2017-01-03'', JNum 2]] ''Open''
     = Some [JNum 1, JNum 2]"
  by code_simp

text \<open>
  Claim C8, as the second notebook has it. For column names that are pairwise
  distinct, building the dictionary of columns fails exactly when some row is shorter
  than the list of column names; the failure is a bare \<open>IndexError\<close>, which names no
  row. Otherwise it succeeds, and the column stored under the \<open>j\<close>-th name lists
  position \<open>j\<close> of every row in the order of the rows: nothing is sorted, dropped or
  rejected, an absent date included.
\<close>

theorem loader_failure:
  assumes "distinct names"
  shows "(afx_dict names data = Inl IndexError \<longleftrightarrow> (\<exists>row\<in>set data. length row < length names)) \<and>
         (\<forall>e. afx_dict names data = Inl e \<longrightarrow> e = IndexError) \<and>
         ((\<forall>row\<in>set data. length names \<le> length row) \<longrightarrow>
            afx_dict names data = Inr (column_of names data)) \<and>
         (\<forall>j<length names. column_of names data (names ! j) = Some (map (\<lambda>row. row ! j) data))"
proof -
  have cols: "\<forall>j<length names. column_of names data (names ! j) = Some (map (\<lambda>row. row ! j) data)"
    using assms by (simp add: column_of_def index_of_distinct)
  have eq: "afx_dict names data =
     (if \<forall>row\<in>set data. length names \<le> length row then Inr (column_of names data)
      else Inl IndexError)"
    by (simp only: afx_dict_eq rows_reach_distinct[OF assms])
  have "(afx_dict names data = Inl IndexError) = (\<exists>row\<in>set data. length row < length names)"
    unfolding eq by (auto simp: not_le)
  moreover have "\<forall>e. afx_dict names data = Inl e \<longrightarrow> e = IndexError"
    unfolding eq by simp
  moreover have "(\<forall>row\<in>set data. length names \<le> length row) \<longrightarrow>
            afx_dict names data = Inr (column_of names data)"
    unfolding eq by simp
  ultimately show ?thesis using cols by blast
qed

theorem loader_failure_witness:
  "distinct [''Date'', ''Open''] \<and>
   afx_dict [''Date'', ''Open''] [[JNull, JNum 1], [JStr ''2017-01-03'', JNum 2]]
     = Inr (column_of [''Date'', ''Open''] [[JNull, JNum 1], [JStr ''2017-01-03'', JNum 2]]) \<and>
   column_of [''Date'', ''Open''] [[JNull, JNum 1], [JStr ''2017-01-03'', JNum 2]] ''Open''
     = Some [JNum 1, JNum 2]"
proof -
  have d: "distinct [''Date'', ''Open'']" by simp
  have long: "\<forall>row\<in>set [[JNull, JNum 1], [JStr ''2017-01-03'', JNum 2]].
      length [''Date'', ''Open''] \<le> length row" by simp
  from loader_failure[OF d, of "[[JNull, JNum 1], [JStr ''2017-01-03'', JNum 2]]"] long
  have "afx_dict [''Date'', ''Open''] [[JNull, JNum 1], [JStr ''2017-01-03'', JNum 2]]
     = Inr (column_of [''Date'', ''Open''] [[JNull, JNum 1], [JStr ''2017-01-03'', JNum 2]])"
    by blast
  with d sample_columns show ?thesis by (intro conjI)
qed

text \<open>
  A row whose date is absent is loaded like any other, and a short row raises an
  exception that carries no row index.
\<close>

theorem loader_counterexample:
  "afx_dict [''Date'', ''Open''] [[JNull, JNum 1]] = Inr [''Date'' \<mapsto> [JNull], ''Open'' \<mapsto> [JNum 1]] \<and>
   afx_dict [''Date'', ''Open''] [[JStr ''2017-01-02'', JNum 1], [JStr ''2017-01-03'']] = Inl IndexError"
  by (simp add: afx_dict_def list_index_def getitem_def)

subsection \<open>Columns by name and columns by position\<close>

lemma sample_permutations:
  "mset swap_open_high = mset [0..<length column_names]"
  "mset swap_turnover = mset [0..<length column_names]"
  by (simp_all add: swap_open_high_def swap_turnover_def column_names_def upt_rec eval_nat_numeral)

lemma sample_payload:
  "distinct column_names"
  "\<forall>row\<in>set (map row_of [day_a, day_b]). length row = length column_names"
  by (simp_all add: column_names_def row_of_def)

lemma sample_kept: "keeps_positions swap_turnover"
  by (simp add: keeps_positions_def swap_turnover_def)

lemma sample_statistics:
  "and_then (afx_dict column_names (map row_of [day_a, day_b])) highest_open_p0 = Inr (JNum 53)"
  "openExtrema (map row_of [day_a, day_b]) = Inr (JNum 34, JNum 53)"
  by code_simp+

text \<open>
  Claim C2, as the notebooks have it. The second notebook resolves every column by
  its name: for a payload whose column names are pairwise distinct and whose rows are
  as long as the list of names, reordering the names and every row alike leaves the
  dictionary of columns, and so every statistic computed from it, unchanged. The
  first notebook never consults the names: its cells read the positions 1, 2, 3, 4
  and 6 of a row, and their results are unchanged by a reordering that leaves these
  five positions in place.
\<close>

theorem columns_by_name:
  assumes "distinct names" and "\<forall>row\<in>set data. length row = length names"
      and "mset p = mset [0..<length names]"
  shows "afx_dict (permute_columns p names) (map (permute_columns p) data) = afx_dict names data \<and>
     and_then (afx_dict (permute_columns p names) (map (permute_columns p) data)) highest_open_p0
       = and_then (afx_dict names data) highest_open_p0 \<and>
     and_then (afx_dict (permute_columns p names) (map (permute_columns p) data)) lowest_open_p0
       = and_then (afx_dict names data) lowest_open_p0 \<and>
     and_then (afx_dict (permute_columns p names) (map (permute_columns p) data)) largest_change_p0
       = and_then (afx_dict names data) largest_change_p0 \<and>
     and_then (afx_dict (permute_columns p names) (map (permute_columns p) data)) maxAdjacentCloseChange_p0
       = and_then (afx_dict names data) maxAdjacentCloseChange_p0 \<and>
     and_then (afx_dict (permute_columns p names) (map (permute_columns p) data)) avg_volume_p0
       = and_then (afx_dict names data) avg_volume_p0 \<and>
     and_then (afx_dict (permute_columns p names) (map (permute_columns p) data)) median_volume_p0
       = and_then (afx_dict names data) median_volume_p0 \<and>
     (keeps_positions p \<longrightarrow>
        openExtrema (map (permute_columns p) data) = openExtrema data \<and>
        largest_change (map (permute_columns p) data) = largest_change data \<and>
        maxAdjacentCloseChange (map (permute_columns p) data) = maxAdjacentCloseChange data \<and>
        avg_volume (map (permute_columns p) data) = avg_volume data \<and>
        median_volume (map (permute_columns p) data) = median_volume data)"
proof -
  have dict: "afx_dict (permute_columns p names) (map (permute_columns p) data) = afx_dict names data"
    using assms by (rule afx_dict_permuted)
  have len: "\<forall>row\<in>set data. length row = length p"
    using assms(2) permutation_facts(3)[OF assms(3)] by simp
  have main: "keeps_positions p \<longrightarrow>
        openExtrema (map (permute_columns p) data) = openExtrema data \<and>
        largest_change (map (permute_columns p) data) = largest_change data \<and>
        maxAdjacentCloseChange (map (permute_columns p) data) = maxAdjacentCloseChange data \<and>
        avg_volume (map (permute_columns p) data) = avg_volume data \<and>
        median_volume (map (permute_columns p) data) = median_volume data"
  proof
    assume k: "keeps_positions p"
    note kept_cells[OF len k]
    then show "openExtrema (map (permute_columns p) data) = openExtrema data \<and>
        largest_change (map (permute_columns p) data) = largest_change data \<and>
        maxAdjacentCloseChange (map (permute_columns p) data) = maxAdjacentCloseChange data \<and>
        avg_volume (map (permute_columns p) data) = avg_volume data \<and>
        median_volume (map (permute_columns p) data) = median_volume data"
      by (simp only: openExtrema_def maxAdjacentCloseChange_def avg_volume_def median_volume_def
          simp_thms)
  qed
  show ?thesis unfolding dict using main by (simp only: simp_thms)
qed

theorem columns_by_name_witness:
  "distinct column_names \<and>
   mset swap_open_high = mset [0..<length column_names] \<and>
   and_then (afx_dict (permute_columns swap_open_high column_names)
      (map (permute_columns swap_open_high) (map row_of [day_a, day_b]))) highest_open_p0
     = Inr (JNum 53) \<and>
   keeps_positions swap_turnover \<and>
   openExtrema (map (permute_columns swap_turnover) (map row_of [day_a, day_b]))
     = Inr (JNum 34, JNum 53)"
proof -
  from columns_by_name[OF sample_payload sample_permutations(1)]
  have "and_then (afx_dict (permute_columns swap_open_high column_names)
      (map (permute_columns swap_open_high) (map row_of [day_a, day_b]))) highest_open_p0
     = and_then (afx_dict column_names (map row_of [day_a, day_b])) highest_open_p0"
    by blast
  moreover from columns_by_name[OF sample_payload sample_permutations(2)] sample_kept
  have "openExtrema (map (permute_columns swap_turnover) (map row_of [day_a, day_b]))
     = openExtrema (map row_of [day_a, day_b])"
    by blast
  ultimately show ?thesis
    using sample_payload(1) sample_permutations(1) sample_kept
    by (simp only: sample_statistics simp_thms)
qed

text \<open>
  Exchanging the columns of the open and the high changes what the first notebook
  reports as the extrema of the open.
\<close>

theorem columns_by_name_counterexample:
  "mset swap_open_high = mset [0..<length column_names] \<and>
   openExtrema (map row_of [day_a]) = Inr (JNum 34, JNum 34) \<and>
   openExtrema (map (permute_columns swap_open_high) (map row_of [day_a])) = Inr (JNum 36, JNum 36)"
proof -
  have "openExtrema (map row_of [day_a]) = Inr (JNum 34, JNum 34)"
    "openExtrema (map (permute_columns swap_open_high) (map row_of [day_a])) = Inr (JNum 36, JNum 36)"
    by code_simp+
  with sample_permutations(1) show ?thesis by (intro conjI)
qed

subsection \<open>Pairing by position and pairing by value\<close>

text \<open>
  Claim C10, as the notebooks have it. For every series whose closes are all present
  and pairwise distinct, the loop of the second notebook, which finds the
  predecessor of a close by searching for the first occurrence of its value,
  produces the same list of changes as the positional comprehension of the first
  notebook. With a repeated close they differ: on the closes 5, 7, 9, 7 the second
  notebook pairs the later 7 with the 5 that precedes the first 7.
\<close>

theorem index_pairing_when_distinct:
  "(None \<notin> set cs \<and> distinct cs \<longrightarrow>
      overnight_changes_p0 (map cell cs) = overnight_changes (map cell cs)) \<and>
   overnight_changes_p0 (map cell [Some 5, Some 7, Some 9, Some 7]) = Inr [2, 2, 2] \<and>
   overnight_changes (map cell [Some 5, Some 7, Some 9, Some 7]) = Inr [2, 2, - 2]"
proof -
  have "overnight_changes_p0 (map cell cs) = overnight_changes (map cell cs)"
    if "None \<notin> set cs" "distinct cs"
  proof -
    have "distinct (map the cs)"
      using that by (simp add: distinct_map inj_on_def) (metis option.exhaust_sel)
    then show ?thesis
      by (simp only: present_closes[OF that(1)] overnight_changes_p0_distinct
          overnight_changes_present)
  qed
  moreover have "overnight_changes_p0 (map cell [Some 5, Some 7, Some 9, Some 7]) = Inr [2, 2, 2]"
    "overnight_changes (map cell [Some 5, Some 7, Some 9, Some 7]) = Inr [2, 2, - 2]"
    by code_simp+
  ultimately show ?thesis by blast
qed

theorem index_pairing_when_distinct_witness:
  "None \<notin> set [Some 100, Some 102, Some (99::rat)] \<and> distinct [Some 100, Some 102, Some (99::rat)] \<and>
   overnight_changes_p0 (map cell [Some 100, Some 102, Some 99]) = Inr [2, - 3]"
proof -
  have h: "None \<notin> set [Some 100, Some 102, Some (99::rat)] \<and> distinct [Some 100, Some 102, Some (99::rat)]"
    by simp
  have "overnight_changes (map cell [Some 100, Some 102, Some 99]) = Inr [2, - 3]"
    by code_simp
  with index_pairing_when_distinct[of "[Some 100, Some 102, Some 99]"] h
  show ?thesis by metis
qed

text \<open>
  With an absent close the present closes may be pairwise distinct and the two still
  differ: the second notebook raises where the first skips the pair.
\<close>

theorem index_pairing_counterexample:
  "distinct (non_null Close (close_days [Some 1, None])) \<and>
   overnight_changes_p0 (map cell (map Close (close_days [Some 1, None]))) = Inl TypeError \<and>
   overnight_changes (map cell (map Close (close_days [Some 1, None]))) = Inr []"
  by code_simp

end
